theory Spec2Isabelle
  imports Complex_Main "HOL-Library.AList"
begin

section \<open>Data model of \<open>findmycells/inspection.py\<close>\<close>

text \<open>
  The post-processed segmentation (\<open>self.zstack\<close>) is a three-dimensional integer array:
  a sequence of planes, each plane a sequence of rows of labels, addressed by
  (plane, row, column). Label 0 is background. Plane indices are natural numbers; labels,
  the \<open>index\<close> argument and the coordinates of the cropping box are Python integers.
\<close>

type_synonym plane = "int list list"
type_synonym volume = "plane list"

text \<open>
  The exceptions the modelled code can raise: the two built-in lookup errors, and one
  constructor for whatever a collaborator outside this module raises (a missing file, an
  unwritable destination, a label that is not on the plane handed to the polygon extractor).
\<close>

datatype error = IndexError | KeyError | ExternalError

section \<open>Python and numpy operations used by the module\<close>

text \<open>\<open>np.unique\<close>: the distinct values of the flattened array in ascending order.\<close>

definition np_unique :: "int list \<Rightarrow> int list" where
  "np_unique xs = sort (remdups xs)"

text \<open>The flattened array in row-major order, the order in which \<open>np.where\<close> enumerates.\<close>

definition ravel :: "volume \<Rightarrow> int list" where
  "ravel zstack = concat (concat zstack)"

text \<open>\<open>if background_id in label_ids: label_ids.remove(background_id)\<close>.\<close>

definition remove_if_present :: "int \<Rightarrow> int list \<Rightarrow> int list" where
  "remove_if_present background_id label_ids =
     (if background_id \<in> set label_ids then remove1 background_id label_ids else label_ids)"

text \<open>
  Indexing a list or the first axis of an array with an integer: a negative index counts
  from the end, and an index outside \<open>-n \<le> index < n\<close> raises \<open>IndexError\<close>.
\<close>

definition list_getitem :: "'a list \<Rightarrow> int \<Rightarrow> error + 'a" where
  "list_getitem xs index =
     (if 0 \<le> index \<and> index < int (length xs) then Inr (xs ! nat index)
      else if index < 0 \<and> - int (length xs) \<le> index then Inr (xs ! nat (int (length xs) + index))
      else Inl IndexError)"

text \<open>
  \<open>round\<close> on a float returns the nearest integer and rounds a tie to the even neighbour.
  A finite float is a rational number, so the centroid coordinates are taken as reals.
\<close>

definition py_round :: "real \<Rightarrow> int" where
  "py_round x =
     (let f = \<lfloor>x\<rfloor>; d = x - of_int f
      in if d < 1 / 2 then f else if 1 / 2 < d then f + 1 else if even f then f else f + 1)"

text \<open>
  The slice \<open>xs[start:stop]\<close> with integer bounds: negative bounds count from the end,
  bounds are clipped to the sequence, and an empty range gives the empty sequence.
\<close>

definition py_slice :: "'a list \<Rightarrow> int \<Rightarrow> int \<Rightarrow> 'a list" where
  "py_slice xs start stop =
     (let n = int (length xs);
          lo = (if start < 0 then max (start + n) 0 else min start n);
          hi = (if stop < 0 then max (stop + n) 0 else min stop n)
      in take (nat (hi - lo)) (drop (nat lo) xs))"

text \<open>Decimal formatting of an integer inside an f-string.\<close>

definition digit_char :: "nat \<Rightarrow> char" where
  "digit_char d = ''0123456789'' ! d"

fun str_nat :: "nat \<Rightarrow> string" where
  "str_nat n = (if n < 10 then [digit_char n] else str_nat (n div 10) @ [digit_char (n mod 10)])"

declare str_nat.simps [simp del]

definition str_int :: "int \<Rightarrow> string" where
  "str_int i = (if i < 0 then CHR ''-'' # str_nat (nat (- i)) else str_nat (nat i))"

text \<open>\<open>pathlib\<close>'s \<open>joinpath\<close>, with paths as strings.\<close>

definition joinpath :: "string \<Rightarrow> string \<Rightarrow> string" where
  "joinpath dir name = dir @ ''/'' @ name"

text \<open>
  A \<open>dict\<close> is an association list in insertion order: \<open>d[k]\<close> raises \<open>KeyError\<close> for a
  missing key, and \<open>d[k] = v\<close> is \<open>AList.update\<close>, which overwrites in place or appends.
\<close>

definition dict_get :: "('k \<times> 'v) list \<Rightarrow> 'k \<Rightarrow> error + 'v" where
  "dict_get d k = (case map_of d k of None \<Rightarrow> Inl KeyError | Some v \<Rightarrow> Inr v)"

text \<open>A \<open>for\<close> loop that collects one result per element and stops at the first exception.\<close>

fun for_each :: "('a \<Rightarrow> error + 'b) \<Rightarrow> 'a list \<Rightarrow> error + 'b list" where
  "for_each body [] = Inr []"
| "for_each body (x # xs) =
     (case body x of
        Inl e \<Rightarrow> Inl e
      | Inr y \<Rightarrow> (case for_each body xs of Inl e \<Rightarrow> Inl e | Inr ys \<Rightarrow> Inr (y # ys)))"

section \<open>\<open>InspectionObject\<close>: choice of the label and of its plane\<close>

text \<open>
  \<open>get_label_id\<close> (lines 36-41): the unique values of the stack, without the background
  (the loop over \<open>[0, 0.0]\<close> tests and removes the value 0 twice), indexed by \<open>index\<close>.
\<close>

definition get_label_id :: "volume \<Rightarrow> int \<Rightarrow> error + int" where
  "get_label_id zstack index =
     (let label_ids = np_unique (ravel zstack);
          label_ids = remove_if_present 0 label_ids;
          label_ids = remove_if_present 0 label_ids
      in list_getitem label_ids index)"

text \<open>
  \<open>np.where(self.zstack == self.label_id)[0]\<close>: the plane index of every cell that holds the
  label, one entry per cell, in row-major order.
\<close>

definition np_where_planes :: "volume \<Rightarrow> int \<Rightarrow> nat list" where
  "np_where_planes zstack label_id =
     concat (map (\<lambda>(plane_index, single_plane).
                    map (\<lambda>_. plane_index) (filter (\<lambda>v. v = label_id) (concat single_plane)))
                 (enumerate 0 zstack))"

text \<open>
  \<open>get_plane_id\<close> (lines 44-50). \<open>int(len(xs) / 2)\<close> is \<open>len(xs) div 2\<close> for every length a
  float represents exactly.
\<close>

definition get_plane_id :: "volume \<Rightarrow> int \<Rightarrow> error + nat" where
  "get_plane_id zstack label_id =
     (let all_planes_with_label_id = np_where_planes zstack label_id
      in if length all_planes_with_label_id > 1
         then Inr (all_planes_with_label_id ! (length all_planes_with_label_id div 2))
         else list_getitem all_planes_with_label_id 0)"

text \<open>
  The selection made by \<open>__init__\<close> (lines 28-29): first the label, then its plane.
\<close>

definition select :: "volume \<Rightarrow> int \<Rightarrow> error + (int \<times> nat)" where
  "select zstack label_index =
     (case get_label_id zstack label_index of
        Inl e \<Rightarrow> Inl e
      | Inr label_id \<Rightarrow>
          (case get_plane_id zstack label_id of
             Inl e \<Rightarrow> Inl e
           | Inr plane_id \<Rightarrow> Inr (label_id, plane_id)))"

section \<open>\<open>InspectReconstructedCells2D\<close>: the window clamper\<close>

text \<open>
  \<open>adjust_cropping_box_to_image_borders\<close> (lines 110-123): the four branches of the
  \<open>if\<close>/\<open>elif\<close> chain in the order of the source. \<open>&\<close> on two booleans is conjunction.
\<close>

definition adjust_cropping_box_to_image_borders :: "int \<Rightarrow> int \<Rightarrow> int \<Rightarrow> int \<times> int" where
  "adjust_cropping_box_to_image_borders centroid_coord max_value half_window_size =
     (if centroid_coord - half_window_size \<ge> 0 \<and> centroid_coord + half_window_size \<le> max_value
        then (centroid_coord - half_window_size, centroid_coord + half_window_size)
      else if centroid_coord - half_window_size < 0 \<and> 2 * half_window_size \<le> max_value
        then (0, 2 * half_window_size)
      else if centroid_coord - 2 * half_window_size \<ge> 0 \<and> centroid_coord + half_window_size > max_value
        then (max_value - 2 * half_window_size, max_value)
      else (0, max_value))"

section \<open>Collaborators outside the module\<close>

text \<open>
  \<open>utils.py\<close> and \<open>database.py\<close> are not part of the verified file, and neither are
  \<open>shapely\<close>, \<open>skimage\<close> and the file system. What the module uses of them is a parameter:
  the loader of a z-stack (with the optional cropping box \<open>minx, maxx, miny, maxy\<close>), the
  polygon extractor, the colour assignment (a \<open>dict\<close> from label to colour, of an unknown
  colour type \<open>'c\<close>), and whether \<open>plt.savefig\<close> can write to a path. Of a polygon the module
  reads \<open>centroid.x\<close>, \<open>centroid.y\<close>, \<open>boundary.xy[0]\<close> and \<open>boundary.xy[1]\<close>.
\<close>

record polygon =
  centroid_x :: real
  centroid_y :: real
  boundary_xy0 :: "real list"
  boundary_xy1 :: "real list"

type_synonym crop_box = "int \<times> int \<times> int \<times> int"

record 'c environment =
  load_zstack_as_array_from_single_planes :: "string \<Rightarrow> string \<Rightarrow> crop_box option \<Rightarrow> error + volume"
  get_polygon_from_instance_segmentation :: "plane \<Rightarrow> int \<Rightarrow> error + polygon"
  get_color_code :: "int list \<Rightarrow> (int \<rightharpoonup> 'c)"
  savefig_writable :: "string \<Rightarrow> bool"

section \<open>Arrays in a store\<close>

text \<open>
  An array is a view onto a buffer: the address of the buffer and the slices taken of it so
  far. \<open>copy\<close> allocates a fresh buffer holding the values seen through the view;
  slicing adds a slice to the view and shares the buffer. The world also records what the
  module prints, saves and displays.
\<close>

record 'e world =
  buffers :: "nat \<Rightarrow> volume"
  next_free :: nat
  events :: "'e list"

record ndarray =
  base :: nat
  slices :: "crop_box list"

text \<open>The values of \<open>v[:, cminx:cmaxx, cminy:cmaxy]\<close>.\<close>

definition crop :: "crop_box \<Rightarrow> volume \<Rightarrow> volume" where
  "crop box v =
     (case box of (cminx, cmaxx, cminy, cmaxy) \<Rightarrow>
        map (\<lambda>single_plane. map (\<lambda>row. py_slice row cminy cmaxy) (py_slice single_plane cminx cmaxx)) v)"

definition ndarray_value :: "'e world \<Rightarrow> ndarray \<Rightarrow> volume" where
  "ndarray_value w a = fold crop (slices a) (buffers w (base a))"

text \<open>A new array holding given values lives in a buffer at the next free address.\<close>

definition ndarray_new :: "volume \<Rightarrow> 'e world \<Rightarrow> ndarray \<times> 'e world" where
  "ndarray_new v w =
     (\<lparr>base = next_free w, slices = []\<rparr>,
      w\<lparr>buffers := (buffers w)(next_free w := v), next_free := Suc (next_free w)\<rparr>)"

definition ndarray_copy :: "ndarray \<Rightarrow> 'e world \<Rightarrow> ndarray \<times> 'e world" where
  "ndarray_copy a w = ndarray_new (ndarray_value w a) w"

definition ndarray_slice :: "ndarray \<Rightarrow> crop_box \<Rightarrow> ndarray" where
  "ndarray_slice a box = a\<lparr>slices := slices a @ [box]\<rparr>"

text \<open>\<open>a[plane_index]\<close>, the two-dimensional view that is handed to \<open>plt.imshow\<close>.\<close>

datatype plane_view = Plane_view ndarray nat

text \<open>
  \<open>shape[0]\<close> and \<open>shape[1]\<close> of a plane. A plane without rows keeps no width in this
  representation; such a plane holds no label.
\<close>

definition shape0 :: "plane \<Rightarrow> int" where
  "shape0 single_plane = int (length single_plane)"

definition shape1 :: "plane \<Rightarrow> int" where
  "shape1 single_plane = (case single_plane of [] \<Rightarrow> 0 | row # _ \<Rightarrow> int (length row))"

section \<open>Figures\<close>

text \<open>
  What \<open>matplotlib\<close> is asked to draw: per subplot (grid row, grid column) the calls made on
  it, in order. \<open>Plot xs ys c lw\<close> is \<open>plt.plot(xs, ys, c=c, lw=lw)\<close>; the marker is drawn
  with \<open>lw='3'\<close>, which \<open>matplotlib\<close> converts to the number 3. \<open>Title s fontsize pad\<close>,
  \<open>Ylabel s fontsize\<close>, \<open>Imshow img cmap\<close> and \<open>Savefig path fig dpi\<close> carry the arguments
  of the source; the image of \<open>Imshow\<close> is the view of the array that the call is handed,
  not a copy of its values.
\<close>

datatype 'c colour = Named string | Assigned 'c

datatype 'c artist =
    Imshow plane_view "string option"
  | Ylabel string nat
  | Title string nat nat
  | Plot "real list" "real list" "'c colour" nat

type_synonym 'c subplot = "(nat \<times> nat) \<times> 'c artist list"

record 'c figure =
  figsize :: "nat \<times> nat"
  facecolor :: string
  gridspec :: "nat \<times> nat"
  subplots :: "'c subplot list"

datatype 'c event =
    Print string
  | Savefig string "'c figure" nat
  | Show "'c figure"
  | Close "'c figure"

section \<open>The database and the inspection object\<close>

text \<open>
  Of the \<open>Database\<close> the module reads four directories and, when it is there, the attribute
  \<open>inspection_strategies\<close>: \<open>None\<close> stands for an object without the attribute, so that
  \<open>hasattr\<close> is a test for \<open>Some\<close>. The field \<open>show\<close> of the object is named \<open>show_plot\<close>
  here, \<open>show\<close> being a keyword.
\<close>

record 's database =
  quantified_segmentations_dir :: string
  preprocessed_images_dir :: string
  instance_segmentations_dir :: string
  inspected_area_plots_dir :: string
  inspection_strategies :: "'s list option"

record 's inspection_object =
  database :: "'s database"
  file_id :: string
  area_roi_id :: string
  show_plot :: bool
  save :: bool
  zstack :: ndarray
  label_id :: int
  plane_id :: nat

text \<open>\<open>__init__\<close> (lines 21-29): load the stack into a fresh array, then select.\<close>

definition InspectionObject_init ::
  "'c environment \<Rightarrow> 's database \<Rightarrow> string \<Rightarrow> string \<Rightarrow> int \<Rightarrow> bool \<Rightarrow> bool \<Rightarrow> 'e world
     \<Rightarrow> (error + 's inspection_object) \<times> 'e world" where
  "InspectionObject_init u db fid roi label_index show_it save_it w =
     (case load_zstack_as_array_from_single_planes u
             (joinpath (quantified_segmentations_dir db) roi) fid None of
        Inl e \<Rightarrow> (Inl e, w)
      | Inr loaded \<Rightarrow>
          (let (arr, w) = ndarray_new loaded w
           in case select (ndarray_value w arr) label_index of
                Inl e \<Rightarrow> (Inl e, w)
              | Inr (l, p) \<Rightarrow>
                  (Inr \<lparr>database = db, file_id = fid, area_roi_id = roi, show_plot = show_it,
                        save = save_it, zstack = arr, label_id = l, plane_id = p\<rparr>, w)))"

section \<open>\<open>InspectReconstructedCells2D\<close>\<close>

text \<open>\<open>get_cropping_indices\<close> (lines 100-107).\<close>

definition get_cropping_indices ::
  "'c environment \<Rightarrow> 'e world \<Rightarrow> 's inspection_object \<Rightarrow> error + crop_box" where
  "get_cropping_indices u w obj =
     (let half_window_size = 200 in
      case list_getitem (ndarray_value w (zstack obj)) (int (plane_id obj)) of
        Inl e \<Rightarrow> Inl e
      | Inr single_plane \<Rightarrow>
          (case get_polygon_from_instance_segmentation u single_plane (label_id obj) of
             Inl e \<Rightarrow> Inl e
           | Inr roi \<Rightarrow>
               (let centroid_x = py_round (centroid_x roi); centroid_y = py_round (centroid_y roi);
                    max_x = shape0 single_plane; max_y = shape1 single_plane;
                    (cminx, cmaxx) = adjust_cropping_box_to_image_borders centroid_x max_x half_window_size;
                    (cminy, cmaxy) = adjust_cropping_box_to_image_borders centroid_y max_y half_window_size
                in Inr (cminx, cmaxx, cminy, cmaxy))))"

text \<open>
  \<open>get_plotting_info\<close> (lines 126-145). The nested \<open>dict\<close> is built empty for every plane;
  the outer loop runs over the labels, the inner one over the planes.
\<close>

record 'c plot_entry =
  color :: 'c
  boundary_x_coords :: "real list"
  boundary_y_coords :: "real list"

type_synonym 'c plotting_info = "(nat \<times> (int \<times> 'c plot_entry) list) list"

fun plotting_info_planes ::
  "'c environment \<Rightarrow> volume \<Rightarrow> (int \<rightharpoonup> 'c) \<Rightarrow> int \<Rightarrow> nat list \<Rightarrow> 'c plotting_info
     \<Rightarrow> error + 'c plotting_info" where
  "plotting_info_planes u V color_code l [] info = Inr info"
| "plotting_info_planes u V color_code l (plane_index # rest) info =
     (if l \<in> set (np_unique (concat (V ! plane_index))) then
        (case get_polygon_from_instance_segmentation u (V ! plane_index) l of
           Inl e \<Rightarrow> Inl e
         | Inr roi \<Rightarrow>
             (case color_code l of
                None \<Rightarrow> Inl KeyError
              | Some c \<Rightarrow>
                  (case dict_get info plane_index of
                     Inl e \<Rightarrow> Inl e
                   | Inr per_plane \<Rightarrow>
                       plotting_info_planes u V color_code l rest
                         (AList.update plane_index
                            (AList.update l
                               \<lparr>color = c, boundary_x_coords = boundary_xy0 roi,
                                boundary_y_coords = boundary_xy1 roi\<rparr> per_plane)
                            info))))
      else plotting_info_planes u V color_code l rest info)"

fun plotting_info_labels ::
  "'c environment \<Rightarrow> volume \<Rightarrow> (int \<rightharpoonup> 'c) \<Rightarrow> int list \<Rightarrow> 'c plotting_info
     \<Rightarrow> error + 'c plotting_info" where
  "plotting_info_labels u V color_code [] info = Inr info"
| "plotting_info_labels u V color_code (l # rest) info =
     (case plotting_info_planes u V color_code l [0..<length V] info of
        Inl e \<Rightarrow> Inl e
      | Inr info' \<Rightarrow> plotting_info_labels u V color_code rest info')"

definition get_plotting_info :: "'c environment \<Rightarrow> volume \<Rightarrow> error + 'c plotting_info" where
  "get_plotting_info u V =
     (let label_ids = np_unique (ravel V);
          label_ids = remove_if_present 0 label_ids;
          label_ids = remove_if_present 0 label_ids;
          color_code = get_color_code u label_ids;
          z_dim = length V;
          plotting_info = fold (\<lambda>plane_index info. AList.update plane_index [] info) [0..<z_dim] []
      in plotting_info_labels u V color_code label_ids plotting_info)"

text \<open>
  \<open>plot_reconstructed_cells\<close> (lines 148-188). \<open>column0\<close>, \<open>column1\<close> and \<open>column2\<close> are the
  bodies of the three loops over the planes. The function reads the three arrays in the
  world and returns the exception raised, if any, and what it saved, printed and
  displayed.
\<close>

definition column0 :: "'e world \<Rightarrow> ndarray \<Rightarrow> nat \<Rightarrow> error + 'c subplot" where
  "column0 w preprocessed_zstack plane_index =
     (case list_getitem (ndarray_value w preprocessed_zstack) (int plane_index) of
        Inl e \<Rightarrow> Inl e
      | Inr _ \<Rightarrow>
          Inr ((plane_index, 0),
               [Imshow (Plane_view preprocessed_zstack plane_index) None,
                Ylabel (''plane_'' @ str_int (int plane_index)) 14]
               @ (if plane_index = 0 then [Title ''input image'' 14 15] else [])))"

definition column1 :: "'e world \<Rightarrow> ndarray \<Rightarrow> nat \<Rightarrow> error + 'c subplot" where
  "column1 w instance_seg_zstack plane_index =
     (case list_getitem (ndarray_value w instance_seg_zstack) (int plane_index) of
        Inl e \<Rightarrow> Inl e
      | Inr _ \<Rightarrow>
          Inr ((plane_index, 1),
               [Imshow (Plane_view instance_seg_zstack plane_index) None]
               @ (if plane_index = 0 then [Title ''instance segmentation'' 14 15] else [])))"

definition column2 ::
  "'e world \<Rightarrow> ndarray \<Rightarrow> 'c plotting_info \<Rightarrow> nat \<Rightarrow> nat \<Rightarrow> error + 'c subplot" where
  "column2 w final_labels_zstack plotting_info plane_id_of_interest plane_index =
     (case list_getitem (ndarray_value w final_labels_zstack) (int plane_index) of
        Inl e \<Rightarrow> Inl e
      | Inr _ \<Rightarrow>
          (case dict_get plotting_info plane_index of
             Inl e \<Rightarrow> Inl e
           | Inr per_plane \<Rightarrow>
               Inr ((plane_index, 2),
                    [Imshow (Plane_view final_labels_zstack plane_index) (Some ''Greys_r'')]
                    @ map (\<lambda>(l, entry). Plot (boundary_y_coords entry) (boundary_x_coords entry)
                                             (Assigned (color entry)) 3) per_plane
                    @ (if plane_index = plane_id_of_interest
                       then [Plot [185, 215] [200, 200] (Named ''red'') 3,
                             Plot [200, 200] [185, 215] (Named ''red'') 3]
                       else [])
                    @ (if plane_index = 0
                       then [Title ''connected components (color-coded)'' 14 15] else []))))"

definition plot_reconstructed_cells ::
  "'c environment \<Rightarrow> 'e world \<Rightarrow> ndarray \<Rightarrow> ndarray \<Rightarrow> ndarray \<Rightarrow> 'c plotting_info \<Rightarrow> nat \<Rightarrow> string
     \<Rightarrow> bool \<Rightarrow> bool \<Rightarrow> error option \<times> 'c event list" where
  "plot_reconstructed_cells u w preprocessed_zstack instance_seg_zstack final_labels_zstack
       plotting_info plane_id_of_interest filepath save_it show_it =
     (let z_dim = length (ndarray_value w final_labels_zstack) in
      case for_each (column0 w preprocessed_zstack) [0..<z_dim] of
        Inl e \<Rightarrow> (Some e, [])
      | Inr col0 \<Rightarrow>
      (case for_each (column1 w instance_seg_zstack) [0..<z_dim] of
        Inl e \<Rightarrow> (Some e, [])
      | Inr col1 \<Rightarrow>
      (case for_each (column2 w final_labels_zstack plotting_info plane_id_of_interest) [0..<z_dim] of
        Inl e \<Rightarrow> (Some e, [])
      | Inr col2 \<Rightarrow>
          (let fig = \<lparr>figsize = (15, 5 * z_dim), facecolor = ''white'', gridspec = (z_dim, 3),
                      subplots = col0 @ col1 @ col2\<rparr>
           in if save_it \<and> \<not> savefig_writable u filepath then (Some ExternalError, [])
              else (None,
                    (if save_it
                     then [Savefig filepath fig 300,
                           Print (''The resulting plot was successfully saved to: '' @ filepath)]
                     else [])
                    @ (if show_it then [Show fig] else [Close fig]))))))"

text \<open>
  \<open>run\<close> (lines 70-97). The cropped stack is a slice of a copy of the source; the two
  loaded stacks are new arrays. The exception raised, if any, is returned with the world
  as it is at that moment.
\<close>

definition run ::
  "'c environment \<Rightarrow> 's inspection_object \<Rightarrow> 'c event world \<Rightarrow> error option \<times> 'c event world" where
  "run u obj w =
     (case get_cropping_indices u w obj of
        Inl e \<Rightarrow> (Some e, w)
      | Inr (cminx, cmaxx, cminy, cmaxy) \<Rightarrow>
          (let (cropped_zstack, w) = ndarray_copy (zstack obj) w;
               cropped_zstack = ndarray_slice cropped_zstack (cminx, cmaxx, cminy, cmaxy)
           in case get_plotting_info u (ndarray_value w cropped_zstack) of
                Inl e \<Rightarrow> (Some e, w)
              | Inr plotting_info \<Rightarrow>
           (case load_zstack_as_array_from_single_planes u (preprocessed_images_dir (database obj))
                   (file_id obj) (Some (cminx, cmaxx, cminy, cmaxy)) of
                Inl e \<Rightarrow> (Some e, w)
              | Inr loaded_preprocessed \<Rightarrow>
           (let (cropped_preprocessed_zstack, w) = ndarray_new loaded_preprocessed w in
            case load_zstack_as_array_from_single_planes u (instance_segmentations_dir (database obj))
                   (file_id obj) (Some (cminx, cmaxx, cminy, cmaxy)) of
                Inl e \<Rightarrow> (Some e, w)
              | Inr loaded_instance_seg \<Rightarrow>
                  (let (cropped_instance_seg_zstack, w) = ndarray_new loaded_instance_seg w;
                       filepath = joinpath (inspected_area_plots_dir (database obj))
                         (file_id obj @ ''_'' @ area_roi_id obj @ ''_'' @ str_int (label_id obj) @ ''_2D.png'');
                       w = (if show_plot obj
                            then w\<lparr>events := events w @
                                   [Print (''Plot to inspect segmentation of label #'' @ str_int (label_id obj)
                                           @ '' in area roi id '' @ area_roi_id obj
                                           @ '' of file id #'' @ file_id obj @ '':'')]\<rparr>
                            else w);
                       (err, evs) = plot_reconstructed_cells u w cropped_preprocessed_zstack
                                      cropped_instance_seg_zstack cropped_zstack
                                      plotting_info (plane_id obj) filepath (save obj) (show_plot obj)
                   in (err, w\<lparr>events := events w @ evs\<rparr>))))))"

section \<open>\<open>run_all_inspection_steps\<close>\<close>

text \<open>
  The module defines one concrete strategy class; \<open>inspection_strategy().run(...)\<close> on it is
  \<open>run\<close>.
\<close>

datatype strategy = InspectReconstructedCells2D

fun instantiate_and_run ::
  "'c environment \<Rightarrow> strategy \<Rightarrow> strategy inspection_object \<Rightarrow> 'c event world
     \<Rightarrow> error option \<times> 'c event world" where
  "instantiate_and_run u InspectReconstructedCells2D obj w = run u obj w"

text \<open>
  \<open>run_all_inspection_steps\<close> (lines 53-56), for any kind of strategy: \<open>strategy_run\<close> is
  what instantiating a strategy and calling its \<open>run\<close> does. The first component of the
  result lists the calls made, each with the object it was given; the second is the
  exception that ended the loop, if any.
\<close>

fun run_each_strategy ::
  "('s \<Rightarrow> 'o \<Rightarrow> 'w \<Rightarrow> error option \<times> 'w) \<Rightarrow> 's list \<Rightarrow> 'o \<Rightarrow> 'w
     \<Rightarrow> ('s \<times> 'o) list \<times> error option \<times> 'w" where
  "run_each_strategy strategy_run [] obj w = ([], None, w)"
| "run_each_strategy strategy_run (inspection_strategy # rest) obj w =
     (case strategy_run inspection_strategy obj w of
        (Some e, w') \<Rightarrow> ([(inspection_strategy, obj)], Some e, w')
      | (None, w') \<Rightarrow>
          (case run_each_strategy strategy_run rest obj w' of
             (calls, outcome) \<Rightarrow> ((inspection_strategy, obj) # calls, outcome)))"

definition run_all_inspection_steps ::
  "('s \<Rightarrow> 's inspection_object \<Rightarrow> 'w \<Rightarrow> error option \<times> 'w) \<Rightarrow> 's inspection_object \<Rightarrow> 'w
     \<Rightarrow> ('s \<times> 's inspection_object) list \<times> error option \<times> 'w" where
  "run_all_inspection_steps strategy_run obj w =
     (case inspection_strategies (database obj) of
        None \<Rightarrow> ([], None, w)
      | Some strategies \<Rightarrow> run_each_strategy strategy_run strategies obj w)"

section \<open>Notions used in the statements\<close>

text \<open>The labels of a volume in ascending order, without the background.\<close>

definition label_ids_of :: "volume \<Rightarrow> int list" where
  "label_ids_of V = remove_if_present 0 (remove_if_present 0 (np_unique (ravel V)))"

text \<open>The number of cells of a plane that hold a label.\<close>

definition count_on_plane :: "plane \<Rightarrow> int \<Rightarrow> nat" where
  "count_on_plane single_plane l = length (filter (\<lambda>v. v = l) (concat single_plane))"

text \<open>The planes on which a label appears: ascending and without duplicates.\<close>

definition planes_with_label :: "volume \<Rightarrow> int \<Rightarrow> nat list" where
  "planes_with_label V l =
     filter (\<lambda>i. l \<in> set (concat (V ! i))) [0..<length V]"

text \<open>
  The planes on which a label appears, each listed once per cell that holds the label.
\<close>

definition plane_index_per_cell :: "volume \<Rightarrow> int \<Rightarrow> nat list" where
  "plane_index_per_cell V l =
     concat (map (\<lambda>i. replicate (count_on_plane (V ! i) l) i)
                 (planes_with_label V l))"

text \<open>The entry of the plotting information under a plane index and a label.\<close>

definition entry_at :: "'c plotting_info \<Rightarrow> nat \<Rightarrow> int \<Rightarrow> 'c plot_entry option" where
  "entry_at info plane_index l =
     (case map_of info plane_index of None \<Rightarrow> None | Some per_plane \<Rightarrow> map_of per_plane l)"

text \<open>
  The entry that the polygon extractor and a colour assignment give for a label on a
  plane, if both answer.
\<close>

definition expected_entry ::
  "'c environment \<Rightarrow> volume \<Rightarrow> (int \<rightharpoonup> 'c) \<Rightarrow> nat \<Rightarrow> int \<Rightarrow> 'c plot_entry option" where
  "expected_entry u V color_code plane_index l =
     (case get_polygon_from_instance_segmentation u (V ! plane_index) l of
        Inl e \<Rightarrow> None
      | Inr roi \<Rightarrow>
          (case color_code l of
             None \<Rightarrow> None
           | Some c \<Rightarrow> Some \<lparr>color = c, boundary_x_coords = boundary_xy0 roi,
                               boundary_y_coords = boundary_xy1 roi\<rparr>))"

text \<open>
  The midpoint of a segment drawn by \<open>plt.plot([x0, x1], [y0, y1])\<close>, and the centre of the
  cropped panel: the panel shows the cropped plane, whose first axis (of extent
  \<open>cmaxx - cminx\<close>) runs vertically and whose second axis runs horizontally, and \<open>plt.plot\<close>
  takes the horizontal coordinates first.
\<close>

definition segment_midpoint :: "real list \<Rightarrow> real list \<Rightarrow> real \<times> real" where
  "segment_midpoint xs ys = ((xs ! 0 + xs ! 1) / 2, (ys ! 0 + ys ! 1) / 2)"

definition window_center :: "crop_box \<Rightarrow> real \<times> real" where
  "window_center box =
     (case box of (cminx, cmaxx, cminy, cmaxy) \<Rightarrow>
        (real_of_int (cmaxy - cminy) / 2, real_of_int (cmaxx - cminx) / 2))"

text \<open>
  An in-place write through an array: the buffer under the array is left with new
  contents. The module itself never writes; the operation states what a holder of the
  array could do.
\<close>

definition ndarray_overwrite :: "'e world \<Rightarrow> ndarray \<Rightarrow> volume \<Rightarrow> 'e world" where
  "ndarray_overwrite w a v = w\<lparr>buffers := (buffers w)(base a := v)\<rparr>"

text \<open>
  The world that the strategy at position \<open>j\<close> of a sequence finds when its predecessors
  have run, and what running it on that world raises (\<open>None\<close>: nothing).
\<close>

definition world_before ::
  "('s \<Rightarrow> 'o \<Rightarrow> 'w \<Rightarrow> error option \<times> 'w) \<Rightarrow> 'o \<Rightarrow> 'w \<Rightarrow> 's list \<Rightarrow> nat \<Rightarrow> 'w" where
  "world_before strategy_run obj w ss j =
     foldl (\<lambda>w s. snd (strategy_run s obj w)) w (take j ss)"

definition outcome_at ::
  "('s \<Rightarrow> 'o \<Rightarrow> 'w \<Rightarrow> error option \<times> 'w) \<Rightarrow> 'o \<Rightarrow> 'w \<Rightarrow> 's list \<Rightarrow> nat \<Rightarrow> error option" where
  "outcome_at strategy_run obj w ss j =
     fst (strategy_run (ss ! j) obj (world_before strategy_run obj w ss j))"

section \<open>A small inspection, used as concrete input\<close>

text \<open>
  Two planes of one row and two columns, labels 3 (on both planes) and 7 (on plane 1
  only). The loader finds the files or not; the polygon extractor refuses a label that
  is not on the plane; colours are the positions in the list of labels.
\<close>

definition example_volume :: volume where
  "example_volume = [[[3, 0]], [[3, 7]]]"

definition example_polygon :: polygon where
  "example_polygon =
     \<lparr>centroid_x = 0, centroid_y = 1 / 2,
      boundary_xy0 = [0, 0, 1, 1, 0], boundary_xy1 = [0, 1, 1, 0, 0]\<rparr>"

definition example_environment :: "bool \<Rightarrow> nat environment" where
  "example_environment files_present =
     \<lparr>load_zstack_as_array_from_single_planes =
        (\<lambda>path fid box.
           if files_present
           then Inr (case box of None \<Rightarrow> example_volume | Some b \<Rightarrow> crop b example_volume)
           else Inl ExternalError),
      get_polygon_from_instance_segmentation =
        (\<lambda>single_plane l.
           if l \<in> set (concat single_plane) then Inr example_polygon else Inl ExternalError),
      get_color_code = (\<lambda>label_ids. map_of (zip label_ids [0..<length label_ids])),
      savefig_writable = (\<lambda>path. True)\<rparr>"

definition example_database :: "strategy database" where
  "example_database =
     \<lparr>quantified_segmentations_dir = ''quantified'',
      preprocessed_images_dir = ''preprocessed'',
      instance_segmentations_dir = ''instances'',
      inspected_area_plots_dir = ''plots'',
      inspection_strategies = Some [InspectReconstructedCells2D, InspectReconstructedCells2D]\<rparr>"

definition example_world :: "nat event world" where
  "example_world = \<lparr>buffers = (\<lambda>a. [])(0 := example_volume), next_free = 1, events = []\<rparr>"

definition example_object :: "strategy inspection_object" where
  "example_object =
     \<lparr>database = example_database, file_id = ''0000'', area_roi_id = ''000'',
      show_plot = False, save = True, zstack = \<lparr>base = 0, slices = []\<rparr>,
      label_id = 3, plane_id = 1\<rparr>"


section \<open>The window clamper\<close>

text \<open>
  C2. For integers with \<open>0 \<le> centroid_coord \<le> axis_extent\<close> and \<open>half_window \<ge> 0\<close> the
  clamper answers by first-match precedence: the centred window when it fits on both
  sides; else the window shifted to the low edge when the centroid is too close to it and
  the axis holds a full window; else the window shifted to the high edge when
  \<open>centroid_coord - 2 * half_window \<ge> 0\<close> and the centred window overshoots; else the
  whole axis. Each later case is stated under the failure of all earlier ones.
\<close>

theorem adjust_cropping_box_first_match:
  assumes "0 \<le> c" and "c \<le> m" and "0 \<le> h"
  shows "(c - h \<ge> 0 \<and> c + h \<le> m
            \<longrightarrow> adjust_cropping_box_to_image_borders c m h = (c - h, c + h))
       \<and> (\<not> (c - h \<ge> 0 \<and> c + h \<le> m) \<and> (c - h < 0 \<and> 2 * h \<le> m)
            \<longrightarrow> adjust_cropping_box_to_image_borders c m h = (0, 2 * h))
       \<and> (\<not> (c - h \<ge> 0 \<and> c + h \<le> m) \<and> \<not> (c - h < 0 \<and> 2 * h \<le> m)
            \<and> (c - 2 * h \<ge> 0 \<and> c + h > m)
            \<longrightarrow> adjust_cropping_box_to_image_borders c m h = (m - 2 * h, m))
       \<and> (\<not> (c - h \<ge> 0 \<and> c + h \<le> m) \<and> \<not> (c - h < 0 \<and> 2 * h \<le> m)
            \<and> \<not> (c - 2 * h \<ge> 0 \<and> c + h > m)
            \<longrightarrow> adjust_cropping_box_to_image_borders c m h = (0, m))"
  unfolding adjust_cropping_box_to_image_borders_def by simp

text \<open>The four worked examples of the specification, one per branch.\<close>

theorem adjust_cropping_box_first_match_witness:
  "adjust_cropping_box_to_image_borders 500 1000 200 = (300, 700)
   \<and> adjust_cropping_box_to_image_borders 50 1000 200 = (0, 400)
   \<and> adjust_cropping_box_to_image_borders 950 1000 200 = (600, 1000)
   \<and> adjust_cropping_box_to_image_borders 50 300 200 = (0, 300)"
  using adjust_cropping_box_first_match [of 500 1000 200]
    adjust_cropping_box_first_match [of 50 1000 200]
    adjust_cropping_box_first_match [of 950 1000 200]
    adjust_cropping_box_first_match [of 50 300 200]
  by simp

text \<open>
  C5. For integers with \<open>0 \<le> centroid_coord \<le> axis_extent\<close>, \<open>axis_extent > 0\<close> and
  \<open>half_window \<ge> 0\<close>, the returned pair satisfies \<open>0 \<le> lower \<le> upper \<le> axis_extent\<close>.
\<close>

theorem adjust_cropping_box_within_axis:
  assumes "0 \<le> c" and "c \<le> m" and "0 < m" and "0 \<le> h"
    and "adjust_cropping_box_to_image_borders c m h = (lower, upper)"
  shows "0 \<le> lower \<and> lower \<le> upper \<and> upper \<le> m"
  using assms unfolding adjust_cropping_box_to_image_borders_def
  by (auto split: if_splits)

theorem adjust_cropping_box_within_axis_witness:
  "adjust_cropping_box_to_image_borders 950 1000 200 = (600, 1000)
   \<and> (0::int) \<le> 600 \<and> (600::int) \<le> 1000 \<and> (1000::int) \<le> 1000"
proof -
  have e: "adjust_cropping_box_to_image_borders 950 1000 200 = (600, 1000)"
    by (simp add: adjust_cropping_box_to_image_borders_def)
  from adjust_cropping_box_within_axis [of 950 1000 200 600 1000, OF _ _ _ _ e] e
  show ?thesis by simp
qed

text \<open>
  C3 (amended). For integers with \<open>0 \<le> centroid_coord \<le> axis_extent\<close> and
  \<open>half_window \<ge> 0\<close>: whenever \<open>2 * half_window \<le> axis_extent\<close> and the centroid is not in
  the band \<open>half_window \<le> centroid_coord < 2 * half_window\<close> with
  \<open>centroid_coord + half_window > axis_extent\<close>, the returned window has width exactly
  \<open>2 * half_window\<close>; and the window is the full axis \<open>(0, axis_extent)\<close> only when the axis
  is at most \<open>2 * half_window\<close> long or the centroid is in that band.
\<close>

theorem adjust_cropping_box_width_outside_band:
  assumes "0 \<le> c" and "c \<le> m" and "0 \<le> h"
  shows "(2 * h \<le> m \<and> \<not> (h \<le> c \<and> c < 2 * h \<and> m < c + h)
            \<longrightarrow> snd (adjust_cropping_box_to_image_borders c m h)
                  - fst (adjust_cropping_box_to_image_borders c m h) = 2 * h)
       \<and> (adjust_cropping_box_to_image_borders c m h = (0, m)
            \<longrightarrow> m \<le> 2 * h \<or> (h \<le> c \<and> c < 2 * h \<and> m < c + h))"
  using assms unfolding adjust_cropping_box_to_image_borders_def
  by (auto split: if_splits)

theorem adjust_cropping_box_width_outside_band_witness:
  "snd (adjust_cropping_box_to_image_borders 950 1000 200)
     - fst (adjust_cropping_box_to_image_borders 950 1000 200) = 2 * 200
   \<and> adjust_cropping_box_to_image_borders 50 300 200 = (0, 300) \<and> (300::int) \<le> 2 * 200"
  using adjust_cropping_box_width_outside_band [of 950 1000 200]
    adjust_cropping_box_width_outside_band [of 50 300 200]
  by (simp add: adjust_cropping_box_to_image_borders_def)

text \<open>
  The claim as first stated fails twice. An axis of exactly \<open>2 * half_window\<close> gives the full
  axis although it is not smaller than \<open>2 * half_window\<close>. And with centroid 350 on an axis
  of 500 a window of width 400 would fit, yet the third branch asks for
  \<open>centroid_coord - 2 * half_window \<ge> 0\<close> (here \<open>-50\<close>), so the chain falls through to the
  whole axis, of width 500.
\<close>

theorem adjust_cropping_box_full_axis_although_window_fits:
  "adjust_cropping_box_to_image_borders 200 400 200 = (0, 400) \<and> \<not> (400 < 2 * (200::int))
   \<and> 2 * (200::int) \<le> 500
   \<and> adjust_cropping_box_to_image_borders 350 500 200 = (0, 500)
   \<and> snd (adjust_cropping_box_to_image_borders 350 500 200)
       - fst (adjust_cropping_box_to_image_borders 350 500 200) \<noteq> 2 * 200"
  by (simp add: adjust_cropping_box_to_image_borders_def)

section \<open>The selection of the label and of its plane\<close>

lemma np_unique_props:
  "set (np_unique xs) = set xs" "distinct (np_unique xs)" "sorted (np_unique xs)"
  by (simp_all add: np_unique_def)

lemma remove_if_present_eq: "remove_if_present b xs = remove1 b xs"
  by (simp add: remove_if_present_def remove1_idem)

lemma label_ids_of_set: "set (label_ids_of V) = {v \<in> set (ravel V). v \<noteq> 0}"
  by (auto simp: label_ids_of_def remove_if_present_eq np_unique_props)

lemma label_ids_of_distinct: "distinct (label_ids_of V)"
  by (simp add: label_ids_of_def remove_if_present_eq np_unique_props)

lemma label_ids_of_sorted: "sorted (label_ids_of V)"
  by (simp add: label_ids_of_def remove_if_present_eq np_unique_props sorted_remove1)

lemma label_ids_of_length: "length (label_ids_of V) = card {v \<in> set (ravel V). v \<noteq> 0}"
  using distinct_card [OF label_ids_of_distinct, of V] by (simp add: label_ids_of_set)

lemma get_label_id_eq: "get_label_id V index = list_getitem (label_ids_of V) index"
  by (simp add: get_label_id_def label_ids_of_def)

lemma map_enumerate_nth:
  "map (\<lambda>(i, p). f i p) (enumerate 0 zs) = map (\<lambda>i. f i (zs ! i)) [0..<length zs]"
  by (rule nth_equalityI) (simp_all add: nth_enumerate_eq)

lemma np_where_planes_replicate:
  "np_where_planes V l =
     concat (map (\<lambda>i. replicate (count_on_plane (V ! i) l) i) [0..<length V])"
  unfolding np_where_planes_def
  by (simp add: map_enumerate_nth count_on_plane_def map_replicate_const)

lemma count_on_plane_pos: "0 < count_on_plane p l \<longleftrightarrow> l \<in> set (concat p)"
  by (auto simp: count_on_plane_def filter_empty_conv)

lemma concat_replicate_filter:
  "concat (map (\<lambda>i. replicate (c i) i) xs)
     = concat (map (\<lambda>i. replicate (c i) i) (filter (\<lambda>i. 0 < c i) xs))"
  by (induction xs) simp_all

lemma np_where_planes_by_plane:
  "np_where_planes V l =
     concat (map (\<lambda>i. replicate (count_on_plane (V ! i) l) i) (planes_with_label V l))"
  unfolding np_where_planes_replicate planes_with_label_def
  by (subst concat_replicate_filter) (simp add: count_on_plane_pos)

lemma set_np_where_planes: "set (np_where_planes V l) = set (planes_with_label V l)"
  unfolding np_where_planes_by_plane
  by (auto simp: planes_with_label_def count_on_plane_pos)

lemma get_plane_id_eq:
  "get_plane_id V l =
     (if np_where_planes V l = [] then Inl IndexError
      else Inr (np_where_planes V l ! (length (np_where_planes V l) div 2)))"
proof (cases "length (np_where_planes V l) > 1")
  case True
  then show ?thesis by (auto simp: get_plane_id_def Let_def)
next
  case False
  then have "length (np_where_planes V l) = 0 \<or> length (np_where_planes V l) = 1"
    by arith
  then show ?thesis
    by (auto simp: get_plane_id_def Let_def list_getitem_def)
qed

lemma concat_replicate_nth:
  "0 < k \<Longrightarrow> j < length ps * k \<Longrightarrow> concat (map (replicate k) ps) ! j = ps ! (j div k)"
proof (induction ps arbitrary: j)
  case Nil
  then show ?case by simp
next
  case (Cons p ps)
  show ?case
  proof (cases "j < k")
    case True
    then show ?thesis by (simp add: nth_append)
  next
    case False
    then have jk: "k \<le> j" by simp
    with Cons.prems have "j - k < length ps * k" by simp
    from Cons.IH [OF Cons.prems(1) this] jk Cons.prems(1)
    show ?thesis by (simp add: nth_append le_div_geq)
  qed
qed

lemma mid_of_equal_runs:
  assumes "0 < k" and "ps \<noteq> []"
  shows "concat (map (replicate k) ps) ! (length (concat (map (replicate k) ps)) div 2)
           = ps ! (length ps div 2)"
proof -
  have len: "length (concat (map (replicate k) ps)) = length ps * k"
    by (induction ps) simp_all
  have pos: "0 < length ps * k" using assms by simp
  then have lt: "length ps * k div 2 < length ps * k" by simp
  have "length ps * k div 2 div k = length ps div 2"
    using assms(1) by (simp add: div_mult2_eq [symmetric] mult.commute)
  with concat_replicate_nth [OF assms(1) lt] len show ?thesis by simp
qed

lemma ravel_member:
  "l \<in> set (ravel V) \<longleftrightarrow> (\<exists>i < length V. l \<in> set (concat (V ! i)))"
proof -
  have "l \<in> set (ravel V) \<longleftrightarrow> (\<exists>p \<in> set V. l \<in> set (concat p))"
    by (simp add: ravel_def)
  also have "\<dots> \<longleftrightarrow> (\<exists>i < length V. l \<in> set (concat (V ! i)))"
    unfolding set_conv_nth by blast
  finally show ?thesis .
qed

lemma planes_with_label_nonempty:
  "planes_with_label V l \<noteq> [] \<longleftrightarrow> l \<in> set (ravel V)"
  by (auto simp: planes_with_label_def ravel_member filter_empty_conv)

lemma np_where_planes_nonempty:
  "np_where_planes V l \<noteq> [] \<longleftrightarrow> l \<in> set (ravel V)"
  using set_np_where_planes [of V l] planes_with_label_nonempty [of V l]
  by (metis set_empty)

lemma equal_counts_runs:
  assumes "\<forall>i \<in> set ps. c i = k"
  shows "concat (map (\<lambda>i. replicate (c i) i) ps) = concat (map (replicate k) ps)"
  using assms by (induction ps) simp_all

lemmas selector_defs =
  select_def get_label_id_def get_plane_id_def np_where_planes_def np_unique_def ravel_def
  remove_if_present_def list_getitem_def

text \<open>
  C1 (amended). For every label volume and every label present in it: the representative
  plane is the element at position \<open>floor(m / 2)\<close> of the ascending list of plane indices
  that lists a plane once for every cell holding the label, \<open>m\<close> being the number of such
  cells. If the label appears on exactly one plane, that plane is returned. If every plane
  on which the label appears holds it in the same number of cells, the representative
  plane is the element at position \<open>floor(n / 2)\<close> of the ascending, duplicate-free list of
  the \<open>n\<close> planes on which the label appears.
\<close>

theorem get_plane_id_midpoint_of_cells:
  assumes present: "l \<in> set (ravel V)"
  shows "get_plane_id V l
           = Inr (plane_index_per_cell V l
                    ! (length (plane_index_per_cell V l) div 2))
       \<and> (\<forall>p. planes_with_label V l = [p] \<longrightarrow> get_plane_id V l = Inr p)
       \<and> ((\<forall>i \<in> set (planes_with_label V l).
              count_on_plane (V ! i) l = k)
            \<longrightarrow> get_plane_id V l
                  = Inr (planes_with_label V l
                           ! (length (planes_with_label V l) div 2)))"
proof -
  let ?ps = "planes_with_label V l"
  let ?cells = "plane_index_per_cell V l"
  have cells: "np_where_planes V l = ?cells"
    by (simp add: np_where_planes_by_plane plane_index_per_cell_def)
  have ne: "?cells \<noteq> []"
    using present np_where_planes_nonempty cells by metis
  have ps_ne: "?ps \<noteq> []"
    using present by (simp add: planes_with_label_nonempty)
  have general: "get_plane_id V l = Inr (?cells ! (length ?cells div 2))"
    using ne by (simp add: get_plane_id_eq cells)
  have equal: "get_plane_id V l = Inr (?ps ! (length ?ps div 2))"
    if eq: "\<forall>i \<in> set ?ps. count_on_plane (V ! i) l = c" for c
  proof -
    obtain i where i: "i \<in> set ?ps" using ps_ne by (meson last_in_set)
    then have "0 < count_on_plane (V ! i) l"
      by (simp add: planes_with_label_def count_on_plane_pos)
    with eq i have c: "0 < c" by auto
    have "?cells = concat (map (replicate c) ?ps)"
      unfolding plane_index_per_cell_def using eq by (rule equal_counts_runs)
    with mid_of_equal_runs [OF c ps_ne] general show ?thesis by simp
  qed
  have single: "get_plane_id V l = Inr p" if "?ps = [p]" for p
    using equal [of "count_on_plane (V ! p) l"] that by simp
  from general single equal show ?thesis by blast
qed

text \<open>
  One cell on each of the planes 2, 5 and 9 gives plane 5; one cell on each of the planes
  1, 2, 3 and 4 gives plane 3.
\<close>

theorem get_plane_id_midpoint_of_cells_witness:
  "planes_with_label [[[0, 0]], [[0, 0]], [[0, 7]], [[0, 0]], [[0, 0]], [[7, 0]],
                      [[0, 0]], [[0, 0]], [[0, 0]], [[0, 7]]] 7 = [2, 5, 9]
   \<and> get_plane_id [[[0, 0]], [[0, 0]], [[0, 7]], [[0, 0]], [[0, 0]], [[7, 0]],
                   [[0, 0]], [[0, 0]], [[0, 0]], [[0, 7]]] 7 = Inr 5
   \<and> planes_with_label [[[0]], [[7]], [[7]], [[7]], [[7]]] 7 = [1, 2, 3, 4]
   \<and> get_plane_id [[[0]], [[7]], [[7]], [[7]], [[7]]] 7 = Inr 3"
proof -
  let ?z = "[[[0, 0]], [[0, 0]], [[0, 7]], [[0, 0]], [[0, 0]], [[7, 0]],
             [[0, 0]], [[0, 0]], [[0, 0]], [[0, 7::int]]]"
  have ps: "planes_with_label ?z 7 = [2, 5, 9]"
    by code_simp
  have present: "7 \<in> set (ravel ?z)"
    by (simp add: ravel_def)
  have one: "\<forall>i \<in> set (planes_with_label ?z 7). count_on_plane (?z ! i) 7 = 1"
    unfolding ps by (simp add: count_on_plane_def)
  from get_plane_id_midpoint_of_cells [OF present, of 1] one
  have "get_plane_id ?z 7
          = Inr (planes_with_label ?z 7 ! (length (planes_with_label ?z 7) div 2))"
    by blast
  then have a: "get_plane_id ?z 7 = Inr 5"
    unfolding ps by simp
  let ?y = "[[[0]], [[7]], [[7]], [[7]], [[7::int]]]"
  have qs: "planes_with_label ?y 7 = [1, 2, 3, 4]"
    by code_simp
  have present': "7 \<in> set (ravel ?y)"
    by (simp add: ravel_def)
  have one': "\<forall>i \<in> set (planes_with_label ?y 7). count_on_plane (?y ! i) 7 = 1"
    unfolding qs by (simp add: count_on_plane_def)
  from get_plane_id_midpoint_of_cells [OF present', of 1] one'
  have "get_plane_id ?y 7
          = Inr (planes_with_label ?y 7 ! (length (planes_with_label ?y 7) div 2))"
    by blast
  then have b: "get_plane_id ?y 7 = Inr 3"
    unfolding qs by simp
  from ps a qs b show ?thesis by simp
qed

text \<open>
  The claim as first stated fails when the planes hold the label in different numbers of
  cells: label 1 holds one cell on planes 0 and 1 and three cells on plane 2. The middle
  of the planes \<open>[0, 1, 2]\<close> is plane 1; the code returns plane 2, the middle of
  \<open>[0, 1, 2, 2, 2]\<close>.
\<close>

theorem get_plane_id_not_midpoint_of_distinct_planes:
  "planes_with_label [[[1, 0, 0]], [[1, 0, 0]], [[1, 1, 1]]] 1 = [0, 1, 2]
   \<and> [0, 1, 2 :: nat] ! (length [0, 1, 2 :: nat] div 2) = 1
   \<and> get_plane_id [[[1, 0, 0]], [[1, 0, 0]], [[1, 1, 1]]] 1 = Inr 2
   \<and> get_plane_id [[[1, 0, 0]], [[1, 0, 0]], [[1, 1, 1]]] 1
       \<noteq> Inr (planes_with_label [[[1, 0, 0]], [[1, 0, 0]], [[1, 1, 1]]] 1
                ! (length (planes_with_label [[[1, 0, 0]], [[1, 0, 0]], [[1, 1, 1]]] 1) div 2))"
proof -
  let ?z = "[[[1, 0, 0]], [[1, 0, 0]], [[1, 1, 1::int]]]"
  have ps: "planes_with_label ?z 1 = [0, 1, 2]"
    by code_simp
  have g: "get_plane_id ?z 1 = Inr 2"
    by (simp add: selector_defs)
  show ?thesis unfolding ps g by simp
qed

text \<open>
  C4. For every label volume and every label index \<open>i\<close> with \<open>0 \<le> i\<close> below the number of
  distinct non-zero labels, the selection succeeds with a label that is one of the
  non-zero values of the volume and with a plane of the volume on which that label
  occurs at least once.
\<close>

theorem select_returns_present_label_and_plane:
  assumes "0 \<le> label_index"
    and "label_index < int (card {v \<in> set (ravel V). v \<noteq> 0})"
  shows "\<exists>l p.
           select V label_index = Inr (l, p)
         \<and> l \<in> {v \<in> set (ravel V). v \<noteq> 0}
         \<and> p < length V
         \<and> l \<in> set (concat (V ! p))"
proof -
  let ?ls = "label_ids_of V"
  let ?l = "?ls ! nat label_index"
  from assms have idx: "nat label_index < length ?ls"
    by (simp add: label_ids_of_length)
  then have lab: "get_label_id V label_index = Inr ?l"
    using assms(1) by (simp add: get_label_id_eq list_getitem_def)
  from idx have mem: "?l \<in> {v \<in> set (ravel V). v \<noteq> 0}"
    using label_ids_of_set nth_mem by blast
  let ?w = "np_where_planes V ?l"
  let ?p = "?w ! (length ?w div 2)"
  from mem have ne: "?w \<noteq> []" by (simp add: np_where_planes_nonempty)
  then have pl: "get_plane_id V ?l = Inr ?p" by (simp add: get_plane_id_eq)
  from ne have "?p \<in> set ?w" by (simp add: nth_mem)
  then have "?p \<in> set (planes_with_label V ?l)" by (simp add: set_np_where_planes)
  then have "?p < length V \<and> ?l \<in> set (concat (V ! ?p))"
    by (simp add: planes_with_label_def)
  with lab pl mem show ?thesis by (simp add: select_def)
qed

theorem select_returns_present_label_and_plane_witness:
  "select [[[1, 0, 0]], [[1, 0, 0]], [[1, 1, 1]]] 0 = Inr (1, 2)
   \<and> (\<exists>l p.
         select [[[1, 0, 0]], [[1, 0, 0]], [[1, 1, 1]]] 0 = Inr (l, p)
       \<and> l \<in> {v \<in> set (ravel [[[1, 0, 0]], [[1, 0, 0]], [[1, 1, 1]]]). v \<noteq> 0}
       \<and> p < length [[[1, 0, 0]], [[1, 0, 0]], [[1, 1, 1::int]]]
       \<and> l \<in> set (concat ([[[1, 0, 0]], [[1, 0, 0]], [[1, 1, 1]]] ! p)))"
proof -
  let ?z = "[[[1, 0, 0]], [[1, 0, 0]], [[1, 1, 1::int]]]"
  have "label_ids_of ?z = [1]"
    by (simp add: label_ids_of_def np_unique_def ravel_def remove_if_present_def)
  then have n: "card {v \<in> set (ravel ?z). v \<noteq> 0} = 1"
    by (simp add: label_ids_of_length [symmetric])
  have s: "select ?z 0 = Inr (1, 2)"
    by (simp add: selector_defs)
  from select_returns_present_label_and_plane [of 0 ?z] n s
  show ?thesis by simp
qed

text \<open>
  C7 (amended). With \<open>n\<close> the number of distinct non-zero labels of the volume: selecting
  with \<open>0 \<le> label_index < n\<close> succeeds with the label at that position of the ascending
  list of labels; selecting with \<open>-n \<le> label_index < 0\<close> succeeds as well, with the label
  at position \<open>n + label_index\<close> (the index counts from the end); every other index fails
  with \<open>IndexError\<close>.
\<close>

theorem select_index_range:
  assumes n: "n = card {v \<in> set (ravel V). v \<noteq> 0}"
  shows "(0 \<le> label_index \<and> label_index < int n
            \<longrightarrow> (\<exists>p. select V label_index
                   = Inr (label_ids_of V ! nat label_index, p)))
       \<and> (- int n \<le> label_index \<and> label_index < 0
            \<longrightarrow> (\<exists>p. select V label_index
                   = Inr (label_ids_of V ! nat (int n + label_index), p)))
       \<and> (\<not> (- int n \<le> label_index \<and> label_index < int n)
            \<longrightarrow> select V label_index = Inl IndexError)"
proof -
  let ?ls = "label_ids_of V"
  have len: "length ?ls = n" by (simp add: n label_ids_of_length)
  have ok: "\<exists>p. select V label_index = Inr (?ls ! j, p)"
    if j: "j < n" and g: "get_label_id V label_index = Inr (?ls ! j)" for j
  proof -
    from j len have "?ls ! j \<in> set ?ls" by simp
    then have "?ls ! j \<in> set (ravel V)" by (simp add: label_ids_of_set)
    then have "np_where_planes V (?ls ! j) \<noteq> []" by (simp add: np_where_planes_nonempty)
    then show ?thesis by (simp add: select_def g get_plane_id_eq)
  qed
  have a: "\<exists>p. select V label_index = Inr (?ls ! nat label_index, p)"
    if "0 \<le> label_index \<and> label_index < int n"
    using that len by (intro ok) (auto simp: get_label_id_eq list_getitem_def)
  have b: "\<exists>p. select V label_index = Inr (?ls ! nat (int n + label_index), p)"
    if "- int n \<le> label_index \<and> label_index < 0"
    using that len by (intro ok) (auto simp: get_label_id_eq list_getitem_def)
  have c: "select V label_index = Inl IndexError"
    if "\<not> (- int n \<le> label_index \<and> label_index < int n)"
    using that len by (auto simp: select_def get_label_id_eq list_getitem_def)
  from a b c show ?thesis by blast
qed

theorem select_index_range_witness:
  "select [[[1, 2]], [[0, 2]]] 1 = Inr (2, 1)
   \<and> select [[[1, 2]], [[0, 2]]] (- 1) = Inr (2, 1)
   \<and> select [[[1, 2]], [[0, 2]]] (- 2) = Inr (1, 0)
   \<and> select [[[1, 2]], [[0, 2]]] 2 = Inl IndexError
   \<and> select [[[1, 2]], [[0, 2]]] (- 3) = Inl IndexError"
proof -
  let ?z = "[[[1, 2]], [[0, 2::int]]]"
  have ls: "label_ids_of ?z = [1, 2]"
    by (simp add: label_ids_of_def np_unique_def ravel_def remove_if_present_def)
  then have n: "2 = card {v \<in> set (ravel ?z). v \<noteq> 0}"
    by (simp add: label_ids_of_length [symmetric])
  have p: "get_plane_id ?z 2 = Inr 1" "get_plane_id ?z 1 = Inr 0"
    by (simp_all add: selector_defs)
  from select_index_range [OF n, of 1] select_index_range [OF n, of "- 1"]
    select_index_range [OF n, of "- 2"] select_index_range [OF n, of 2]
    select_index_range [OF n, of "- 3"]
  show ?thesis
    by (auto simp: ls select_def p split: sum.splits)
qed

text \<open>
  The claim as first stated fails at index \<open>-1\<close>, which is outside \<open>0 \<le> label_index < 2\<close>
  and selects the largest label instead of failing.
\<close>

theorem select_negative_index_succeeds:
  "\<not> (0 \<le> (- 1 :: int)
        \<and> (- 1 :: int) < int (card {v \<in> set (ravel [[[1, 2]], [[0, 2]]]). v \<noteq> 0}))
   \<and> select [[[1, 2]], [[0, 2]]] (- 1) = Inr (2, 1)"
  by (simp add: selector_defs)

section \<open>The plotting information\<close>

lemma entry_at_update:
  "map_of info q = Some per_plane \<Longrightarrow>
   entry_at (AList.update q (AList.update l e per_plane) info) p l'
     = (if p = q \<and> l' = l then Some e else entry_at info p l')"
  by (simp add: entry_at_def update_conv')

lemma planes_loop_entries:
  assumes "plotting_info_planes u V cc l ps info = Inr info'"
  shows "entry_at info' p l'
           = (if l' = l \<and> p \<in> set ps \<and> l \<in> set (concat (V ! p))
              then expected_entry u V cc p l else entry_at info p l')"
  using assms
proof (induction ps arbitrary: info)
  case Nil
  then show ?case by simp
next
  case (Cons q rest)
  show ?case
  proof (cases "l \<in> set (concat (V ! q))")
    case False
    with Cons.prems have "plotting_info_planes u V cc l rest info = Inr info'"
      by (simp add: np_unique_props)
    from Cons.IH [OF this] False show ?thesis by auto
  next
    case True
    with Cons.prems obtain roi c per_plane where
      roi: "get_polygon_from_instance_segmentation u (V ! q) l = Inr roi"
      and c: "cc l = Some c"
      and pp: "map_of info q = Some per_plane"
      and rest: "plotting_info_planes u V cc l rest
                   (AList.update q (AList.update l
                      \<lparr>color = c, boundary_x_coords = boundary_xy0 roi,
                       boundary_y_coords = boundary_xy1 roi\<rparr> per_plane) info) = Inr info'"
      by (auto simp: np_unique_props dict_get_def split: sum.splits option.splits)
    have exp: "expected_entry u V cc q l
                 = Some \<lparr>color = c, boundary_x_coords = boundary_xy0 roi,
                         boundary_y_coords = boundary_xy1 roi\<rparr>"
      by (simp add: expected_entry_def roi c)
    from Cons.IH [OF rest] True exp show ?thesis
      by (auto simp: entry_at_update [OF pp])
  qed
qed

lemma planes_loop_expected:
  assumes "plotting_info_planes u V cc l ps info = Inr info'"
    and "p \<in> set ps" and "l \<in> set (concat (V ! p))"
  shows "expected_entry u V cc p l \<noteq> None"
  using assms
proof (induction ps arbitrary: info)
  case Nil
  then show ?case by simp
next
  case (Cons q rest)
  show ?case
  proof (cases "l \<in> set (concat (V ! q))")
    case False
    with Cons.prems have r: "plotting_info_planes u V cc l rest info = Inr info'"
      and "p \<in> set rest"
      by (auto simp: np_unique_props)
    with Cons.IH Cons.prems(3) show ?thesis by blast
  next
    case True
    with Cons.prems(1) obtain roi c info1 where
      roi: "get_polygon_from_instance_segmentation u (V ! q) l = Inr roi"
      and c: "cc l = Some c"
      and rest: "plotting_info_planes u V cc l rest info1 = Inr info'"
      by (auto simp: np_unique_props dict_get_def split: sum.splits option.splits)
    show ?thesis
    proof (cases "p = q")
      case True
      then show ?thesis by (simp add: expected_entry_def roi c)
    next
      case False
      with Cons.prems(2) have "p \<in> set rest" by simp
      with Cons.IH [OF rest] Cons.prems(3) show ?thesis by blast
    qed
  qed
qed

lemma labels_loop_entries:
  assumes "plotting_info_labels u V cc ls info = Inr info'"
  shows "entry_at info' p l'
           = (if l' \<in> set ls \<and> p < length V \<and> l' \<in> set (concat (V ! p))
              then expected_entry u V cc p l' else entry_at info p l')"
  using assms
proof (induction ls arbitrary: info)
  case Nil
  then show ?case by simp
next
  case (Cons l rest)
  from Cons.prems obtain info1 where
    one: "plotting_info_planes u V cc l [0..<length V] info = Inr info1"
    and more: "plotting_info_labels u V cc rest info1 = Inr info'"
    by (auto split: sum.splits)
  from planes_loop_entries [OF one, of p l'] Cons.IH [OF more]
  show ?case by auto
qed

lemma labels_loop_expected:
  assumes "plotting_info_labels u V cc ls info = Inr info'"
    and "l \<in> set ls" and "p < length V" and "l \<in> set (concat (V ! p))"
  shows "expected_entry u V cc p l \<noteq> None"
  using assms
proof (induction ls arbitrary: info)
  case Nil
  then show ?case by simp
next
  case (Cons l0 rest)
  from Cons.prems(1) obtain info1 where
    one: "plotting_info_planes u V cc l0 [0..<length V] info = Inr info1"
    and more: "plotting_info_labels u V cc rest info1 = Inr info'"
    by (auto split: sum.splits)
  show ?case
  proof (cases "l = l0")
    case True
    with planes_loop_expected [OF one, of p] Cons.prems(3,4) show ?thesis by simp
  next
    case False
    with Cons.prems(2) have "l \<in> set rest" by simp
    from Cons.IH [OF more this Cons.prems(3,4)] show ?thesis .
  qed
qed

lemma empty_dicts_lookup:
  "map_of (fold (\<lambda>plane_index info. AList.update plane_index [] info) ps info0) p
     = (if p \<in> set ps then Some [] else map_of info0 p)"
  by (induction ps arbitrary: info0) (auto simp: update_conv')

lemma entry_at_empty_dicts:
  "entry_at (fold (\<lambda>plane_index info. AList.update plane_index [] info) ps []) p l = None"
  by (simp add: entry_at_def empty_dicts_lookup)

lemma get_plotting_info_unfold:
  "get_plotting_info u V =
     plotting_info_labels u V (get_color_code u (label_ids_of V)) (label_ids_of V)
       (fold (\<lambda>plane_index info. AList.update plane_index [] info) [0..<length V] [])"
  by (simp add: get_plotting_info_def label_ids_of_def Let_def)

lemma on_plane_in_volume:
  "p < length V \<Longrightarrow> l \<in> set (concat (V ! p)) \<Longrightarrow> l \<in> set (ravel V)"
  using ravel_member by blast

lemma get_plotting_info_entry_at:
  assumes "get_plotting_info u V = Inr info"
  shows "entry_at info p l
           = (if p < length V \<and> l \<noteq> 0 \<and> l \<in> set (concat (V ! p))
              then expected_entry u V (get_color_code u (label_ids_of V)) p l else None)"
  using labels_loop_entries [OF assms [unfolded get_plotting_info_unfold], of p l]
    on_plane_in_volume [of p V l]
  by (auto simp: entry_at_empty_dicts label_ids_of_set)

lemma get_plotting_info_expected:
  assumes "get_plotting_info u V = Inr info"
    and "p < length V" and "l \<noteq> 0" and "l \<in> set (concat (V ! p))"
  shows "expected_entry u V (get_color_code u (label_ids_of V)) p l \<noteq> None"
proof -
  from assms(2-4) have "l \<in> set (label_ids_of V)"
    by (simp add: label_ids_of_set on_plane_in_volume)
  from labels_loop_expected [OF assms(1) [unfolded get_plotting_info_unfold] this assms(2,4)]
  show ?thesis .
qed

lemma planes_loop_succeeds:
  assumes "\<forall>p \<in> set ps. map_of info p \<noteq> None"
    and "\<forall>p \<in> set ps. l \<in> set (concat (V ! p)) \<longrightarrow> expected_entry u V cc p l \<noteq> None"
  shows "\<exists>info'. plotting_info_planes u V cc l ps info = Inr info'
                \<and> (\<forall>p. map_of info' p = None \<longleftrightarrow> map_of info p = None)"
  using assms
proof (induction ps arbitrary: info)
  case Nil
  then show ?case by simp
next
  case (Cons q rest)
  show ?case
  proof (cases "l \<in> set (concat (V ! q))")
    case False
    from Cons.IH [of info] Cons.prems False show ?thesis
      by (simp add: np_unique_props)
  next
    case True
    with Cons.prems(2) obtain roi c where
      roi: "get_polygon_from_instance_segmentation u (V ! q) l = Inr roi"
      and c: "cc l = Some c"
      by (auto simp: expected_entry_def split: sum.splits option.splits)
    from Cons.prems(1) obtain per_plane where pp: "map_of info q = Some per_plane"
      by auto
    let ?info1 = "AList.update q (AList.update l
                    \<lparr>color = c, boundary_x_coords = boundary_xy0 roi,
                     boundary_y_coords = boundary_xy1 roi\<rparr> per_plane) info"
    have keys: "map_of ?info1 p = None \<longleftrightarrow> map_of info p = None" for p
      using pp by (simp add: update_conv')
    from Cons.prems have "\<exists>info'. plotting_info_planes u V cc l rest ?info1 = Inr info'
                \<and> (\<forall>p. map_of info' p = None \<longleftrightarrow> map_of ?info1 p = None)"
      by (intro Cons.IH) (simp_all add: keys)
    then show ?thesis
      using True by (simp add: np_unique_props roi c dict_get_def pp keys)
  qed
qed

lemma labels_loop_succeeds:
  assumes "\<forall>p < length V. map_of info p \<noteq> None"
    and "\<forall>l \<in> set ls. \<forall>p < length V.
           l \<in> set (concat (V ! p)) \<longrightarrow> expected_entry u V cc p l \<noteq> None"
  shows "\<exists>info'. plotting_info_labels u V cc ls info = Inr info'"
  using assms
proof (induction ls arbitrary: info)
  case Nil
  then show ?case by simp
next
  case (Cons l rest)
  from Cons.prems have
    "\<exists>info1. plotting_info_planes u V cc l [0..<length V] info = Inr info1
            \<and> (\<forall>p. map_of info1 p = None \<longleftrightarrow> map_of info p = None)"
    by (intro planes_loop_succeeds) simp_all
  then obtain info1 where
    one: "plotting_info_planes u V cc l [0..<length V] info = Inr info1"
    and keys: "\<forall>p. map_of info1 p = None \<longleftrightarrow> map_of info p = None"
    by blast
  from Cons.prems keys have "\<exists>info'. plotting_info_labels u V cc rest info1 = Inr info'"
    by (intro Cons.IH) simp_all
  with one show ?case by simp
qed

text \<open>
  C6. For every cropped label volume, the plotting information that \<open>get_plotting_info\<close>
  builds has an entry under a plane index and a label if and only if the label is not 0
  and occurs on that plane of the volume; the colour of an entry is the one that the
  single colour assignment, computed over the list of all non-zero labels of the volume,
  gives to the label, and its boundary is the one the polygon extractor gives for the
  label on that plane. The information is built whenever the extractor answers for every
  label on every plane where it occurs and the colour assignment covers those labels.
\<close>

theorem get_plotting_info_sparse_entries:
  fixes u :: "'c environment" and V :: volume
  defines "color_code \<equiv> get_color_code u (label_ids_of V)"
  shows "set (label_ids_of V) = {v \<in> set (ravel V). v \<noteq> 0}
       \<and> ((\<forall>p < length V. \<forall>l. l \<noteq> 0 \<and> l \<in> set (concat (V ! p))
              \<longrightarrow> (\<exists>roi. get_polygon_from_instance_segmentation u (V ! p) l = Inr roi)
                \<and> (\<exists>c. color_code l = Some c))
            \<longrightarrow> (\<exists>info. get_plotting_info u V = Inr info))
       \<and> (\<forall>info. get_plotting_info u V = Inr info \<longrightarrow>
            (\<forall>p l. ((\<exists>e. entry_at info p l = Some e)
                       \<longleftrightarrow> p < length V \<and> l \<noteq> 0 \<and> l \<in> set (concat (V ! p)))
                  \<and> (\<forall>e. entry_at info p l = Some e \<longrightarrow>
                        color_code l = Some (color e)
                      \<and> (\<exists>roi. get_polygon_from_instance_segmentation u (V ! p) l = Inr roi
                              \<and> boundary_x_coords e = boundary_xy0 roi
                              \<and> boundary_y_coords e = boundary_xy1 roi))))"
proof (intro conjI impI allI)
  show "set (label_ids_of V) = {v \<in> set (ravel V). v \<noteq> 0}"
    by (rule label_ids_of_set)
next
  assume ok: "\<forall>p < length V. \<forall>l. l \<noteq> 0 \<and> l \<in> set (concat (V ! p))
              \<longrightarrow> (\<exists>roi. get_polygon_from_instance_segmentation u (V ! p) l = Inr roi)
                \<and> (\<exists>c. color_code l = Some c)"
  have "expected_entry u V color_code p l \<noteq> None"
    if "l \<in> set (label_ids_of V)" "p < length V" "l \<in> set (concat (V ! p))" for l p
  proof -
    from that have "l \<noteq> 0" by (simp add: label_ids_of_set)
    with ok that obtain roi c where
      "get_polygon_from_instance_segmentation u (V ! p) l = Inr roi" "color_code l = Some c"
      by blast
    then show ?thesis by (simp add: expected_entry_def)
  qed
  then have "\<exists>info'. plotting_info_labels u V color_code (label_ids_of V)
               (fold (\<lambda>plane_index info. AList.update plane_index [] info) [0..<length V] [])
             = Inr info'"
    by (intro labels_loop_succeeds) (simp_all add: empty_dicts_lookup)
  then show "\<exists>info. get_plotting_info u V = Inr info"
    by (simp add: get_plotting_info_unfold color_code_def)
next
  fix info p l
  assume g: "get_plotting_info u V = Inr info"
  note at = get_plotting_info_entry_at [OF g, of p l, folded color_code_def]
  show "(\<exists>e. entry_at info p l = Some e)
          \<longleftrightarrow> p < length V \<and> l \<noteq> 0 \<and> l \<in> set (concat (V ! p))"
    using at get_plotting_info_expected [OF g, of p l, folded color_code_def] by auto
next
  fix info p l e
  assume g: "get_plotting_info u V = Inr info" and e: "entry_at info p l = Some e"
  from get_plotting_info_entry_at [OF g, of p l, folded color_code_def] e
  have "expected_entry u V color_code p l = Some e"
    by (metis option.distinct(1))
  then show "color_code l = Some (color e)"
    and "\<exists>roi. get_polygon_from_instance_segmentation u (V ! p) l = Inr roi
              \<and> boundary_x_coords e = boundary_xy0 roi
              \<and> boundary_y_coords e = boundary_xy1 roi"
    by (auto simp: expected_entry_def split: sum.splits option.splits)
qed

text \<open>
  Labels 3 and 7, label 3 on planes 0 and 1 and label 7 on plane 1 only: there is no
  entry for label 7 on plane 0.
\<close>

theorem get_plotting_info_sparse_entries_witness:
  "\<exists>info. get_plotting_info (example_environment True) example_volume = Inr info
         \<and> entry_at info 0 3 \<noteq> None \<and> entry_at info 1 3 \<noteq> None
         \<and> entry_at info 1 7 \<noteq> None \<and> entry_at info 0 7 = None
         \<and> map_option color (entry_at info 1 7)
             = get_color_code (example_environment True) (label_ids_of example_volume) 7"
proof -
  have ls: "label_ids_of example_volume = [3, 7]"
    by code_simp
  have ok: "\<forall>p < length example_volume. \<forall>l. l \<noteq> 0 \<and> l \<in> set (concat (example_volume ! p))
              \<longrightarrow> (\<exists>roi. get_polygon_from_instance_segmentation (example_environment True)
                            (example_volume ! p) l = Inr roi)
                \<and> (\<exists>c. get_color_code (example_environment True) (label_ids_of example_volume) l = Some c)"
    unfolding ls
    by (auto simp: example_environment_def example_volume_def less_Suc_eq numeral_2_eq_2)
  from get_plotting_info_sparse_entries [of example_volume "example_environment True"] ok
  obtain info where g: "get_plotting_info (example_environment True) example_volume = Inr info"
    by blast
  have on: "(0::nat) < length example_volume" "(1::nat) < length example_volume"
    "(3::int) \<in> set (concat (example_volume ! 0))" "(3::int) \<in> set (concat (example_volume ! 1))"
    "(7::int) \<in> set (concat (example_volume ! 1))" "(7::int) \<notin> set (concat (example_volume ! 0))"
    by (simp_all add: example_volume_def)
  from get_plotting_info_sparse_entries [of example_volume "example_environment True"] g
  have iff: "(\<exists>e. entry_at info p l = Some e)
              \<longleftrightarrow> p < length example_volume \<and> l \<noteq> 0 \<and> l \<in> set (concat (example_volume ! p))"
    and col: "\<forall>e. entry_at info p l = Some e \<longrightarrow>
                get_color_code (example_environment True) (label_ids_of example_volume) l = Some (color e)"
    for p l
    by blast+
  from iff [of 0 3] iff [of 1 3] iff [of 1 7] iff [of 0 7] on
  have e: "entry_at info 0 3 \<noteq> None" "entry_at info 1 3 \<noteq> None"
    "entry_at info 1 7 \<noteq> None" "entry_at info 0 7 = None"
    by auto
  from e(3) col [of 1 7]
  have "map_option color (entry_at info 1 7)
          = get_color_code (example_environment True) (label_ids_of example_volume) 7"
    by auto
  with g e show ?thesis by blast
qed

section \<open>The run of the 2D strategy\<close>

lemma for_each_nth:
  "for_each body xs = Inr ys \<Longrightarrow>
     length ys = length xs \<and> (\<forall>i < length xs. body (xs ! i) = Inr (ys ! i))"
proof (induction xs arbitrary: ys)
  case Nil
  then show ?case by simp
next
  case (Cons x xs)
  from Cons.prems obtain y ys' where
    y: "body x = Inr y" and ys': "for_each body xs = Inr ys'" and ys: "ys = y # ys'"
    by (auto split: sum.splits)
  from Cons.IH [OF ys'] y ys show ?case
    by (auto simp: nth_Cons')
qed

lemma column2_subplot:
  assumes "column2 w fin info poi p = Inr sp"
  shows "fst sp = (p, 2)
       \<and> Imshow (Plane_view fin p) (Some ''Greys_r'') \<in> set (snd sp)
       \<and> (p = poi \<longrightarrow>
            Plot [185, 215] [200, 200] (Named ''red'') 3 \<in> set (snd sp)
          \<and> Plot [200, 200] [185, 215] (Named ''red'') 3 \<in> set (snd sp))"
  using assms by (auto simp: column2_def split: sum.splits)

lemma plot_reconstructed_cells_column2:
  assumes ok: "plot_reconstructed_cells u w pre seg fin info poi path sv sh = (None, evs)"
  shows "\<exists>fig col2. evs \<noteq> [] \<and> last evs = (if sh then Show fig else Close fig)
           \<and> set col2 \<subseteq> set (subplots fig)
           \<and> for_each (column2 w fin info poi) [0..<length (ndarray_value w fin)] = Inr col2"
proof -
  let ?n = "length (ndarray_value w fin)"
  from ok obtain col0 col1 col2 where
    col2: "for_each (column2 w fin info poi) [0..<?n] = Inr col2"
    and evs: "evs = (if sv
                     then [Savefig path \<lparr>figsize = (15, 5 * ?n), facecolor = ''white'',
                                          gridspec = (?n, 3),
                                          subplots = col0 @ col1 @ col2\<rparr> 300,
                           Print (''The resulting plot was successfully saved to: '' @ path)]
                     else [])
                  @ (if sh
                     then [Show \<lparr>figsize = (15, 5 * ?n), facecolor = ''white'',
                                 gridspec = (?n, 3), subplots = col0 @ col1 @ col2\<rparr>]
                     else [Close \<lparr>figsize = (15, 5 * ?n), facecolor = ''white'',
                                  gridspec = (?n, 3), subplots = col0 @ col1 @ col2\<rparr>])"
    by (auto simp: plot_reconstructed_cells_def Let_def split: sum.splits if_splits)
  let ?fig = "\<lparr>figsize = (15, 5 * ?n), facecolor = ''white'',
               gridspec = (?n, 3), subplots = col0 @ col1 @ col2\<rparr> :: 'a figure"
  from evs col2 show ?thesis
    by (intro exI [of _ ?fig] exI [of _ col2]) auto
qed

lemma plot_reconstructed_cells_row:
  assumes ok: "plot_reconstructed_cells u w pre seg fin info poi path sv sh = (None, evs)"
  shows "\<exists>fig. evs \<noteq> [] \<and> last evs = (if sh then Show fig else Close fig)
           \<and> (\<forall>p < length (ndarray_value w fin). \<exists>arts.
                 ((p, 2), arts) \<in> set (subplots fig)
               \<and> Imshow (Plane_view fin p) (Some ''Greys_r'') \<in> set arts
               \<and> (p = poi \<longrightarrow>
                    Plot [185, 215] [200, 200] (Named ''red'') 3 \<in> set arts
                  \<and> Plot [200, 200] [185, 215] (Named ''red'') 3 \<in> set arts))"
proof -
  from plot_reconstructed_cells_column2 [OF ok] obtain fig col2 where
    ne: "evs \<noteq> []" and l: "last evs = (if sh then Show fig else Close fig)"
    and sub: "set col2 \<subseteq> set (subplots fig)"
    and col2: "for_each (column2 w fin info poi) [0..<length (ndarray_value w fin)] = Inr col2"
    by blast
  have "\<exists>arts. ((p, 2), arts) \<in> set (subplots fig)
               \<and> Imshow (Plane_view fin p) (Some ''Greys_r'') \<in> set arts
               \<and> (p = poi \<longrightarrow>
                    Plot [185, 215] [200, 200] (Named ''red'') 3 \<in> set arts
                  \<and> Plot [200, 200] [185, 215] (Named ''red'') 3 \<in> set arts)"
    if p: "p < length (ndarray_value w fin)" for p
  proof -
    from for_each_nth [OF col2] p have
      len: "length col2 = length (ndarray_value w fin)"
      and sp: "column2 w fin info poi p = Inr (col2 ! p)"
      by auto
    from column2_subplot [OF sp] have key: "col2 ! p = ((p, 2), snd (col2 ! p))"
      and rest: "Imshow (Plane_view fin p) (Some ''Greys_r'') \<in> set (snd (col2 ! p))"
        "p = poi \<longrightarrow>
            Plot [185, 215] [200, 200] (Named ''red'') 3 \<in> set (snd (col2 ! p))
          \<and> Plot [200, 200] [185, 215] (Named ''red'') 3 \<in> set (snd (col2 ! p))"
      by (simp_all add: prod_eq_iff)
    from len p have "col2 ! p \<in> set col2" by simp
    with key sub have "((p, 2), snd (col2 ! p)) \<in> set (subplots fig)" by auto
    with rest show ?thesis by blast
  qed
  with ne l show ?thesis by blast
qed

lemma ndarray_new_simps [simp]:
  "fst (ndarray_new v w) = \<lparr>base = next_free w, slices = []\<rparr>"
  "buffers (snd (ndarray_new v w)) = (buffers w)(next_free w := v)"
  "next_free (snd (ndarray_new v w)) = Suc (next_free w)"
  "events (snd (ndarray_new v w)) = events w"
  by (simp_all add: ndarray_new_def)

lemma ndarray_value_events [simp]:
  "ndarray_value (w\<lparr>events := evs\<rparr>) a = ndarray_value w a"
  by (simp add: ndarray_value_def)

lemma column_events [simp]:
  "column0 (w\<lparr>events := evs\<rparr>) pre = column0 w pre"
  "column1 (w\<lparr>events := evs\<rparr>) seg = column1 w seg"
  "column2 (w\<lparr>events := evs\<rparr>) fin info poi = column2 w fin info poi"
  by (simp_all add: fun_eq_iff column0_def column1_def column2_def)

lemma plot_reconstructed_cells_events [simp]:
  "plot_reconstructed_cells u (w\<lparr>events := evs\<rparr>) pre seg fin info poi path sv sh
     = plot_reconstructed_cells u w pre seg fin info poi path sv sh"
  unfolding plot_reconstructed_cells_def column_events ndarray_value_events ..

lemma length_crop [simp]: "length (crop box v) = length v"
  by (simp add: crop_def split: prod.splits)

lemma get_cropping_indices_plane_id:
  "get_cropping_indices u w obj = Inr box \<Longrightarrow> plane_id obj < length (ndarray_value w (zstack obj))"
  by (auto simp: get_cropping_indices_def list_getitem_def Let_def split: sum.splits if_splits)

text \<open>
  The worlds a run goes through: after the copy, after the first and after the second
  loaded stack.
\<close>

lemma run_unfold:
  assumes box: "get_cropping_indices u w obj = Inr (cminx, cmaxx, cminy, cmaxy)"
  defines "w1 \<equiv> snd (ndarray_copy (zstack obj) w)"
    and "cropped \<equiv> \<lparr>base = next_free w, slices = [(cminx, cmaxx, cminy, cmaxy)]\<rparr>"
  shows "run u obj w =
     (case get_plotting_info u (ndarray_value w1 cropped) of
        Inl e \<Rightarrow> (Some e, w1)
      | Inr info \<Rightarrow>
          (case load_zstack_as_array_from_single_planes u (preprocessed_images_dir (database obj))
                  (file_id obj) (Some (cminx, cmaxx, cminy, cmaxy)) of
             Inl e \<Rightarrow> (Some e, w1)
           | Inr pre \<Rightarrow>
               (case load_zstack_as_array_from_single_planes u
                       (instance_segmentations_dir (database obj))
                       (file_id obj) (Some (cminx, cmaxx, cminy, cmaxy)) of
                  Inl e \<Rightarrow> (Some e, snd (ndarray_new pre w1))
                | Inr seg \<Rightarrow>
                    (fst (plot_reconstructed_cells u (snd (ndarray_new seg (snd (ndarray_new pre w1))))
                            \<lparr>base = Suc (next_free w), slices = []\<rparr>
                            \<lparr>base = Suc (Suc (next_free w)), slices = []\<rparr> cropped info (plane_id obj)
                            (joinpath (inspected_area_plots_dir (database obj))
                               (file_id obj @ ''_'' @ area_roi_id obj @ ''_''
                                @ str_int (label_id obj) @ ''_2D.png''))
                            (save obj) (show_plot obj)),
                     (snd (ndarray_new seg (snd (ndarray_new pre w1))))
                       \<lparr>events := events w
                          @ (if show_plot obj
                             then [Print (''Plot to inspect segmentation of label #''
                                          @ str_int (label_id obj) @ '' in area roi id ''
                                          @ area_roi_id obj @ '' of file id #'' @ file_id obj
                                          @ '':'')]
                             else [])
                          @ snd (plot_reconstructed_cells u
                                   (snd (ndarray_new seg (snd (ndarray_new pre w1))))
                                   \<lparr>base = Suc (next_free w), slices = []\<rparr>
                                   \<lparr>base = Suc (Suc (next_free w)), slices = []\<rparr> cropped info
                                   (plane_id obj)
                                   (joinpath (inspected_area_plots_dir (database obj))
                                      (file_id obj @ ''_'' @ area_roi_id obj @ ''_''
                                       @ str_int (label_id obj) @ ''_2D.png''))
                                   (save obj) (show_plot obj))\<rparr>))))"
  unfolding w1_def cropped_def
  by (cases "show_plot obj")
     (simp_all add: run_def box ndarray_copy_def ndarray_slice_def split_beta Let_def
        split: sum.splits)

lemma run_completed:
  fixes u :: "'c environment"
  assumes run: "run u obj w = (None, w')"
  shows "\<exists>box info (ws :: 'c event world) pre seg path evs printed.
           get_cropping_indices u w obj = Inr box
         \<and> plot_reconstructed_cells u ws pre seg \<lparr>base = next_free w, slices = [box]\<rparr> info
               (plane_id obj) path (save obj) (show_plot obj) = (None, evs)
         \<and> events w' = events w @ printed @ evs
         \<and> buffers w' = buffers ws
         \<and> buffers ws (next_free w) = ndarray_value w (zstack obj)"
proof -
  from run obtain cminx cmaxx cminy cmaxy where
    box: "get_cropping_indices u w obj = Inr (cminx, cmaxx, cminy, cmaxy)"
    by (cases "get_cropping_indices u w obj") (auto simp: run_def)
  let ?box = "(cminx, cmaxx, cminy, cmaxy)"
  let ?w1 = "snd (ndarray_copy (zstack obj) w)"
  let ?cropped = "\<lparr>base = next_free w, slices = [?box]\<rparr>"
  note eq = run_unfold [OF box]
  show ?thesis
  proof (cases "get_plotting_info u (ndarray_value ?w1 ?cropped)")
    case (Inl e)
    with run show ?thesis by (simp add: eq)
  next
    case info: (Inr info)
    show ?thesis
    proof (cases "load_zstack_as_array_from_single_planes u (preprocessed_images_dir (database obj))
                    (file_id obj) (Some ?box)")
      case (Inl e)
      with run info show ?thesis by (simp add: eq)
    next
      case pre: (Inr pre)
      show ?thesis
      proof (cases "load_zstack_as_array_from_single_planes u
                      (instance_segmentations_dir (database obj)) (file_id obj) (Some ?box)")
        case (Inl e)
        with run info pre show ?thesis by (simp add: eq)
      next
        case seg: (Inr seg)
        let ?ws = "snd (ndarray_new seg (snd (ndarray_new pre ?w1)))"
        let ?path = "joinpath (inspected_area_plots_dir (database obj))
                       (file_id obj @ ''_'' @ area_roi_id obj @ ''_''
                        @ str_int (label_id obj) @ ''_2D.png'')"
        let ?r = "plot_reconstructed_cells u ?ws \<lparr>base = Suc (next_free w), slices = []\<rparr>
                    \<lparr>base = Suc (Suc (next_free w)), slices = []\<rparr> ?cropped info (plane_id obj)
                    ?path (save obj) (show_plot obj)"
        let ?msg = "if show_plot obj
                    then [Print (''Plot to inspect segmentation of label #''
                                 @ str_int (label_id obj) @ '' in area roi id ''
                                 @ area_roi_id obj @ '' of file id #'' @ file_id obj @ '':'')]
                    else []"
        from run have "(fst ?r, ?ws\<lparr>events := events w @ ?msg @ snd ?r\<rparr>) = (None, w')"
          by (simp add: eq info pre seg)
        then have f: "fst ?r = None"
          and w': "w' = ?ws\<lparr>events := events w @ ?msg @ snd ?r\<rparr>"
          by simp_all
        from f have r: "?r = (None, snd ?r)"
          by (metis prod.collapse)
        have ev: "events w' = events w @ ?msg @ snd ?r"
          unfolding w' by simp
        have b: "buffers w' = buffers ?ws"
          unfolding w' by simp
        have c: "buffers ?ws (next_free w) = ndarray_value w (zstack obj)"
          by (simp add: ndarray_copy_def)
        from box r ev b c show ?thesis by blast
      qed
    qed
  qed
qed

lemma run_frame:
  assumes run: "run u obj w = (outcome, w')"
  shows "\<forall>a. a < next_free w \<longrightarrow> buffers w' a = buffers w a"
proof (cases "get_cropping_indices u w obj")
  case (Inl e)
  with run show ?thesis by (auto simp: run_def)
next
  case (Inr box)
  obtain cminx cmaxx cminy cmaxy where b: "box = (cminx, cmaxx, cminy, cmaxy)"
    by (cases box)
  let ?box = "(cminx, cmaxx, cminy, cmaxy)"
  let ?w1 = "snd (ndarray_copy (zstack obj) w)"
  let ?cropped = "\<lparr>base = next_free w, slices = [?box]\<rparr>"
  note eq = run_unfold [OF Inr [unfolded b]]
  show ?thesis
  proof (cases "get_plotting_info u (ndarray_value ?w1 ?cropped)")
    case (Inl e)
    with run have "w' = ?w1" by (simp add: eq)
    then show ?thesis by (simp add: ndarray_copy_def)
  next
    case info: (Inr info)
    show ?thesis
    proof (cases "load_zstack_as_array_from_single_planes u (preprocessed_images_dir (database obj))
                    (file_id obj) (Some ?box)")
      case (Inl e)
      with run info have "w' = ?w1" by (simp add: eq)
      then show ?thesis by (simp add: ndarray_copy_def)
    next
      case pre: (Inr pre)
      show ?thesis
      proof (cases "load_zstack_as_array_from_single_planes u
                      (instance_segmentations_dir (database obj)) (file_id obj) (Some ?box)")
        case (Inl e)
        with run info pre have "w' = snd (ndarray_new pre ?w1)" by (simp add: eq)
        then show ?thesis by (simp add: ndarray_copy_def)
      next
        case seg: (Inr seg)
        from run info pre seg
        have "buffers w' = buffers (snd (ndarray_new seg (snd (ndarray_new pre ?w1))))"
          by (auto simp: eq)
        then show ?thesis by (simp add: ndarray_copy_def)
      qed
    qed
  qed
qed

lemma run_figure:
  fixes u :: "'c environment"
  assumes "run u obj w = (None, w')"
  shows "\<exists>box fig.
           get_cropping_indices u w obj = Inr box
         \<and> last (events w') = (if show_plot obj then Show fig else Close fig)
         \<and> buffers w' (next_free w) = ndarray_value w (zstack obj)
         \<and> (\<forall>p < length (ndarray_value w (zstack obj)). \<exists>arts.
               ((p, 2), arts) \<in> set (subplots fig)
             \<and> Imshow (Plane_view \<lparr>base = next_free w, slices = [box]\<rparr> p) (Some ''Greys_r'')
                 \<in> set arts
             \<and> (p = plane_id obj \<longrightarrow>
                  Plot [185, 215] [200, 200] (Named ''red'') 3 \<in> set arts
                \<and> Plot [200, 200] [185, 215] (Named ''red'') 3 \<in> set arts))"
proof -
  from run_completed [OF assms] obtain box info and ws :: "'c event world"
    and pre seg path evs printed where
    box: "get_cropping_indices u w obj = Inr box"
    and plot: "plot_reconstructed_cells u ws pre seg \<lparr>base = next_free w, slices = [box]\<rparr> info
                 (plane_id obj) path (save obj) (show_plot obj) = (None, evs)"
    and ev: "events w' = events w @ printed @ evs"
    and b: "buffers w' = buffers ws"
    and c: "buffers ws (next_free w) = ndarray_value w (zstack obj)"
    by blast
  from c have len: "length (ndarray_value ws \<lparr>base = next_free w, slices = [box]\<rparr>)
                      = length (ndarray_value w (zstack obj))"
    by (simp add: ndarray_value_def)
  from plot_reconstructed_cells_row [OF plot] obtain fig where
    ne: "evs \<noteq> []" and l: "last evs = (if show_plot obj then Show fig else Close fig)"
    and rows: "\<forall>p < length (ndarray_value ws \<lparr>base = next_free w, slices = [box]\<rparr>). \<exists>arts.
                 ((p, 2), arts) \<in> set (subplots fig)
               \<and> Imshow (Plane_view \<lparr>base = next_free w, slices = [box]\<rparr> p) (Some ''Greys_r'')
                   \<in> set arts
               \<and> (p = plane_id obj \<longrightarrow>
                    Plot [185, 215] [200, 200] (Named ''red'') 3 \<in> set arts
                  \<and> Plot [200, 200] [185, 215] (Named ''red'') 3 \<in> set arts)"
    by blast
  from ne ev l have "last (events w') = (if show_plot obj then Show fig else Close fig)"
    by simp
  with box rows b c show ?thesis
    unfolding len by (intro exI [of _ box] exI [of _ fig]) simp
qed

lemma run_crosshair_drawn:
  assumes "run u obj w = (None, w')"
  shows "\<exists>box fig arts.
           get_cropping_indices u w obj = Inr box
         \<and> last (events w') = (if show_plot obj then Show fig else Close fig)
         \<and> ((plane_id obj, 2), arts) \<in> set (subplots fig)
         \<and> Plot [185, 215] [200, 200] (Named ''red'') 3 \<in> set arts
         \<and> Plot [200, 200] [185, 215] (Named ''red'') 3 \<in> set arts"
proof -
  from run_figure [OF assms] obtain box fig where
    box: "get_cropping_indices u w obj = Inr box"
    and l: "last (events w') = (if show_plot obj then Show fig else Close fig)"
    and rows: "\<forall>p < length (ndarray_value w (zstack obj)). \<exists>arts.
               ((p, 2), arts) \<in> set (subplots fig)
             \<and> Imshow (Plane_view \<lparr>base = next_free w, slices = [box]\<rparr> p) (Some ''Greys_r'')
                 \<in> set arts
             \<and> (p = plane_id obj \<longrightarrow>
                  Plot [185, 215] [200, 200] (Named ''red'') 3 \<in> set arts
                \<and> Plot [200, 200] [185, 215] (Named ''red'') 3 \<in> set arts)"
    by blast
  from get_cropping_indices_plane_id [OF box] rows obtain arts where
    "((plane_id obj, 2), arts) \<in> set (subplots fig)"
    "Plot [185, 215] [200, 200] (Named ''red'') 3 \<in> set arts"
    "Plot [200, 200] [185, 215] (Named ''red'') 3 \<in> set arts"
    by blast
  with box l show ?thesis by blast
qed

text \<open>The small inspection, evaluated.\<close>

lemma example_cropping:
  "get_cropping_indices (example_environment b) example_world example_object = Inr (0, 1, 0, 2)"
  by (simp add: get_cropping_indices_def example_environment_def example_world_def example_object_def
      example_volume_def example_polygon_def ndarray_value_def list_getitem_def py_round_def
      shape0_def shape1_def adjust_cropping_box_to_image_borders_def)

lemma example_run_ok:
  "fst (run (example_environment True) example_object example_world) = None"
  by code_simp

lemma example_run_fails:
  "fst (run (example_environment False) example_object example_world) = Some ExternalError"
  by code_simp

lemma example_object_fields:
  "show_plot example_object = False" "plane_id example_object = 1"
  "zstack example_object = \<lparr>base = 0, slices = []\<rparr>"
  "inspection_strategies (database example_object)
     = Some [InspectReconstructedCells2D, InspectReconstructedCells2D]"
  by (simp_all add: example_object_def example_database_def)

lemma example_run_pair:
  "run (example_environment True) example_object example_world
     = (None, snd (run (example_environment True) example_object example_world))"
  using example_run_ok by (metis prod.collapse)

text \<open>
  C8 (amended). For every inspection run that completes, on the figure row whose index
  is the representative plane the third column draws a crosshair of fixed size, two red
  segments of length 30, centred at the fixed position \<open>(200, 200)\<close> of the cropped panel,
  which is \<open>(half_window_size, half_window_size)\<close>. That position is the geometric centre
  of the crop window if and only if the window extends over exactly 400, twice the half
  window, on both axes.
\<close>

theorem run_draws_crosshair_at_fixed_position:
  assumes "run u obj w = (None, w')"
  shows "\<exists>box fig arts.
           get_cropping_indices u w obj = Inr box
         \<and> last (events w') = (if show_plot obj then Show fig else Close fig)
         \<and> ((plane_id obj, 2), arts) \<in> set (subplots fig)
         \<and> Plot [185, 215] [200, 200] (Named ''red'') 3 \<in> set arts
         \<and> Plot [200, 200] [185, 215] (Named ''red'') 3 \<in> set arts
         \<and> segment_midpoint [185, 215] [200, 200] = (200, 200)
         \<and> segment_midpoint [200, 200] [185, 215] = (200, 200)
         \<and> ((200, 200) = window_center box
              \<longleftrightarrow> (\<exists>cminx cminy. box = (cminx, cminx + 400, cminy, cminy + 400)))"
proof -
  from run_crosshair_drawn [OF assms] obtain box fig arts where
    drawn: "get_cropping_indices u w obj = Inr box"
      "last (events w') = (if show_plot obj then Show fig else Close fig)"
      "((plane_id obj, 2), arts) \<in> set (subplots fig)"
      "Plot [185, 215] [200, 200] (Named ''red'') 3 \<in> set arts"
      "Plot [200, 200] [185, 215] (Named ''red'') 3 \<in> set arts"
    by blast
  have m: "segment_midpoint [185, 215] [200, 200] = (200, 200)"
    "segment_midpoint [200, 200] [185, 215] = (200, 200)"
    by (simp_all add: segment_midpoint_def)
  have c: "(200, 200) = window_center box
             \<longleftrightarrow> (\<exists>cminx cminy. box = (cminx, cminx + 400, cminy, cminy + 400))"
    by (cases box) (auto simp: window_center_def)
  from drawn m c show ?thesis by blast
qed

theorem run_draws_crosshair_at_fixed_position_witness:
  "run (example_environment True) example_object example_world
     = (None, snd (run (example_environment True) example_object example_world))
   \<and> (\<exists>box fig arts.
         get_cropping_indices (example_environment True) example_world example_object = Inr box
       \<and> last (events (snd (run (example_environment True) example_object example_world))) = Close fig
       \<and> ((1, 2), arts) \<in> set (subplots fig)
       \<and> Plot [185, 215] [200, 200] (Named ''red'') 3 \<in> set arts
       \<and> Plot [200, 200] [185, 215] (Named ''red'') 3 \<in> set arts
       \<and> ((200, 200) = window_center box
             \<longleftrightarrow> (\<exists>cminx cminy. box = (cminx, cminx + 400, cminy, cminy + 400))))"
  using run_draws_crosshair_at_fixed_position [OF example_run_pair] example_run_pair
  by (simp add: example_object_fields) blast

text \<open>
  The claim as first stated fails on a volume whose planes are smaller than the window:
  the planes of the small inspection are 1 by 2, the crop window is the whole plane, its
  centre is \<open>(1, 1/2)\<close>, and the crosshair is still drawn around \<open>(200, 200)\<close>.
\<close>

theorem crosshair_not_at_center_of_small_window:
  "fst (run (example_environment True) example_object example_world) = None
   \<and> get_cropping_indices (example_environment True) example_world example_object = Inr (0, 1, 0, 2)
   \<and> (\<exists>fig arts.
         last (events (snd (run (example_environment True) example_object example_world))) = Close fig
       \<and> ((plane_id example_object, 2), arts) \<in> set (subplots fig)
       \<and> Plot [185, 215] [200, 200] (Named ''red'') 3 \<in> set arts
       \<and> Plot [200, 200] [185, 215] (Named ''red'') 3 \<in> set arts)
   \<and> segment_midpoint [185, 215] [200, 200] = (200, 200)
   \<and> segment_midpoint [200, 200] [185, 215] = (200, 200)
   \<and> window_center (0, 1, 0, 2) = (1, 1 / 2)
   \<and> segment_midpoint [185, 215] [200, 200] \<noteq> window_center (0, 1, 0, 2)"
proof -
  from run_crosshair_drawn [OF example_run_pair]
  have "\<exists>fig arts.
         last (events (snd (run (example_environment True) example_object example_world))) = Close fig
       \<and> ((plane_id example_object, 2), arts) \<in> set (subplots fig)
       \<and> Plot [185, 215] [200, 200] (Named ''red'') 3 \<in> set arts
       \<and> Plot [200, 200] [185, 215] (Named ''red'') 3 \<in> set arts"
    by (simp add: example_object_fields(1))
  then show ?thesis
    by (simp add: example_run_ok example_cropping segment_midpoint_def window_center_def)
qed

text \<open>
  C9. For every run of the 2D strategy, whether it completes or raises: the z-stack of
  the inspection object has afterwards the values it had before, element for element, and
  no buffer that existed before the run is written. When the run completes, the cropped
  stack, the one whose planes the third column of the figure displays, is a slice of a
  buffer allocated during the run, at an address different from the one of the source;
  that buffer holds a copy of the source, and whatever is written in place through the
  cropped stack leaves the source as it was: the crop is a slice of a fresh copy and
  does not alias the source.
\<close>

theorem run_leaves_source_zstack_unchanged:
  fixes u :: "'c environment"
  assumes "base (zstack obj) < next_free w"
    and "run u obj w = (outcome, w')"
  shows "ndarray_value w' (zstack obj) = ndarray_value w (zstack obj)
       \<and> (\<forall>a. a < next_free w \<longrightarrow> buffers w' a = buffers w a)
       \<and> (outcome = None \<longrightarrow>
            (\<exists>box fig cropped.
                get_cropping_indices u w obj = Inr box
              \<and> cropped = \<lparr>base = next_free w, slices = [box]\<rparr>
              \<and> base cropped \<noteq> base (zstack obj)
              \<and> buffers w' (base cropped) = ndarray_value w (zstack obj)
              \<and> ndarray_value w' cropped = crop box (ndarray_value w (zstack obj))
              \<and> last (events w') = (if show_plot obj then Show fig else Close fig)
              \<and> (\<forall>p < length (ndarray_value w (zstack obj)). \<exists>arts.
                    ((p, 2), arts) \<in> set (subplots fig)
                  \<and> Imshow (Plane_view cropped p) (Some ''Greys_r'') \<in> set arts)
              \<and> (\<forall>v. ndarray_value (ndarray_overwrite w' cropped v) (zstack obj)
                        = ndarray_value w (zstack obj))))"
proof -
  from run_frame [OF assms(2)] have
    old: "\<forall>a. a < next_free w \<longrightarrow> buffers w' a = buffers w a" .
  with assms(1) have same: "ndarray_value w' (zstack obj) = ndarray_value w (zstack obj)"
    by (simp add: ndarray_value_def)
  have "\<exists>box fig cropped.
                get_cropping_indices u w obj = Inr box
              \<and> cropped = \<lparr>base = next_free w, slices = [box]\<rparr>
              \<and> base cropped \<noteq> base (zstack obj)
              \<and> buffers w' (base cropped) = ndarray_value w (zstack obj)
              \<and> ndarray_value w' cropped = crop box (ndarray_value w (zstack obj))
              \<and> last (events w') = (if show_plot obj then Show fig else Close fig)
              \<and> (\<forall>p < length (ndarray_value w (zstack obj)). \<exists>arts.
                    ((p, 2), arts) \<in> set (subplots fig)
                  \<and> Imshow (Plane_view cropped p) (Some ''Greys_r'') \<in> set arts)
              \<and> (\<forall>v. ndarray_value (ndarray_overwrite w' cropped v) (zstack obj)
                        = ndarray_value w (zstack obj))"
    if "outcome = None"
  proof -
    from that assms(2) have "run u obj w = (None, w')" by simp
    from run_figure [OF this] obtain box fig where
      box: "get_cropping_indices u w obj = Inr box"
      and l: "last (events w') = (if show_plot obj then Show fig else Close fig)"
      and copy: "buffers w' (next_free w) = ndarray_value w (zstack obj)"
      and rows: "\<forall>p < length (ndarray_value w (zstack obj)). \<exists>arts.
               ((p, 2), arts) \<in> set (subplots fig)
             \<and> Imshow (Plane_view \<lparr>base = next_free w, slices = [box]\<rparr> p) (Some ''Greys_r'')
                 \<in> set arts
             \<and> (p = plane_id obj \<longrightarrow>
                  Plot [185, 215] [200, 200] (Named ''red'') 3 \<in> set arts
                \<and> Plot [200, 200] [185, 215] (Named ''red'') 3 \<in> set arts)"
      by blast
    let ?cropped = "\<lparr>base = next_free w, slices = [box]\<rparr>"
    from assms(1) have fresh: "base ?cropped \<noteq> base (zstack obj)" by simp
    from copy have val: "ndarray_value w' ?cropped = crop box (ndarray_value w (zstack obj))"
      by (simp add: ndarray_value_def)
    from fresh same
    have iso: "\<forall>v. ndarray_value (ndarray_overwrite w' ?cropped v) (zstack obj)
                 = ndarray_value w (zstack obj)"
      by (simp add: ndarray_value_def ndarray_overwrite_def)
    from rows have rows': "\<forall>p < length (ndarray_value w (zstack obj)). \<exists>arts.
                    ((p, 2), arts) \<in> set (subplots fig)
                  \<and> Imshow (Plane_view ?cropped p) (Some ''Greys_r'') \<in> set arts"
      by blast
    from box fresh copy val l rows' iso show ?thesis
      by (intro exI [of _ box] exI [of _ fig] exI [of _ ?cropped]) simp
  qed
  with same old show ?thesis by blast
qed

theorem run_leaves_source_zstack_unchanged_witness:
  "base (zstack example_object) < next_free example_world
   \<and> fst (run (example_environment True) example_object example_world) = None
   \<and> ndarray_value (snd (run (example_environment True) example_object example_world))
         (zstack example_object) = example_volume
   \<and> buffers (snd (run (example_environment True) example_object example_world)) 1
       = example_volume
   \<and> (\<exists>fig arts.
         last (events (snd (run (example_environment True) example_object example_world)))
           = Close fig
       \<and> ((1, 2), arts) \<in> set (subplots fig)
       \<and> Imshow (Plane_view \<lparr>base = 1, slices = [(0, 1, 0, 2)]\<rparr> 1) (Some ''Greys_r'')
           \<in> set arts)
   \<and> ndarray_value
        (ndarray_overwrite (snd (run (example_environment True) example_object example_world))
           \<lparr>base = 1, slices = [(0, 1, 0, 2)]\<rparr> [])
        (zstack example_object) = example_volume"
proof -
  let ?w' = "snd (run (example_environment True) example_object example_world)"
  have a: "base (zstack example_object) < next_free example_world"
    by (simp add: example_object_fields example_world_def)
  have v: "ndarray_value example_world (zstack example_object) = example_volume"
    by (simp add: example_object_fields example_world_def ndarray_value_def)
  have n: "next_free example_world = 1"
    by (simp add: example_world_def)
  note t = run_leaves_source_zstack_unchanged [OF a example_run_pair]
  from t have same: "ndarray_value ?w' (zstack example_object) = example_volume"
    by (simp add: v)
  from t obtain box fig cropped where
    box: "get_cropping_indices (example_environment True) example_world example_object = Inr box"
    and c: "cropped = \<lparr>base = next_free example_world, slices = [box]\<rparr>"
    and copy: "buffers ?w' (base cropped) = ndarray_value example_world (zstack example_object)"
    and l: "last (events ?w') = (if show_plot example_object then Show fig else Close fig)"
    and rows: "\<forall>p < length (ndarray_value example_world (zstack example_object)). \<exists>arts.
                    ((p, 2), arts) \<in> set (subplots fig)
                  \<and> Imshow (Plane_view cropped p) (Some ''Greys_r'') \<in> set arts"
    and iso: "\<forall>v. ndarray_value (ndarray_overwrite ?w' cropped v) (zstack example_object)
                        = ndarray_value example_world (zstack example_object)"
    by blast
  from box have b: "box = (0, 1, 0, 2)"
    by (simp add: example_cropping)
  from c b n have c': "cropped = \<lparr>base = 1, slices = [(0, 1, 0, 2)]\<rparr>"
    by simp
  have "(1::nat) < length (ndarray_value example_world (zstack example_object))"
    by (simp add: v example_volume_def)
  with rows obtain arts where
    "((1, 2), arts) \<in> set (subplots fig)"
    "Imshow (Plane_view cropped 1) (Some ''Greys_r'') \<in> set arts"
    by blast
  with l have fig: "\<exists>fig arts. last (events ?w') = Close fig
       \<and> ((1, 2), arts) \<in> set (subplots fig)
       \<and> Imshow (Plane_view \<lparr>base = 1, slices = [(0, 1, 0, 2)]\<rparr> 1) (Some ''Greys_r'')
           \<in> set arts"
    unfolding c' by (auto simp: example_object_fields)
  from copy have copy': "buffers ?w' 1 = example_volume"
    by (simp add: c' v)
  from iso have iso': "ndarray_value (ndarray_overwrite ?w' \<lparr>base = 1, slices = [(0, 1, 0, 2)]\<rparr> [])
        (zstack example_object) = example_volume"
    by (simp add: c' v)
  from a example_run_ok same copy' fig iso' show ?thesis by simp
qed

section \<open>Running all inspection steps\<close>

lemma run_each_strategy_step:
  "run_each_strategy sr (s # ss) obj w
     = (if fst (sr s obj w) = None
        then ((s, obj) # fst (run_each_strategy sr ss obj (snd (sr s obj w))),
              snd (run_each_strategy sr ss obj (snd (sr s obj w))))
        else ([(s, obj)], fst (sr s obj w), snd (sr s obj w)))"
  by (cases "sr s obj w") (auto simp: split_beta)

declare run_each_strategy.simps(2) [simp del]

lemma run_each_strategy_calls:
  "fst (run_each_strategy sr ss obj w)
     = map (\<lambda>s. (s, obj)) (take (length (fst (run_each_strategy sr ss obj w))) ss)"
  by (induction ss arbitrary: w) (simp_all add: run_each_strategy_step)

lemma run_each_strategy_length:
  "length (fst (run_each_strategy sr ss obj w)) \<le> length ss"
  by (induction ss arbitrary: w) (simp_all add: run_each_strategy_step)

lemma world_before_simps [simp]:
  "world_before sr obj w ss 0 = w"
  "world_before sr obj w (s # ss) (Suc j) = world_before sr obj (snd (sr s obj w)) ss j"
  by (simp_all add: world_before_def)

lemma outcome_at_simps [simp]:
  "outcome_at sr obj w (s # ss) 0 = fst (sr s obj w)"
  "outcome_at sr obj w (s # ss) (Suc j) = outcome_at sr obj (snd (sr s obj w)) ss j"
  by (simp_all add: outcome_at_def)

lemma run_each_strategy_world:
  "snd (snd (run_each_strategy sr ss obj w))
     = world_before sr obj w ss (length (fst (run_each_strategy sr ss obj w)))"
  by (induction ss arbitrary: w) (simp_all add: run_each_strategy_step)

lemma run_each_strategy_completes:
  "fst (snd (run_each_strategy sr ss obj w)) = None \<Longrightarrow>
     length (fst (run_each_strategy sr ss obj w)) = length ss"
  by (induction ss arbitrary: w) (simp_all add: run_each_strategy_step split: if_splits)

lemma run_each_strategy_stops:
  "fst (snd (run_each_strategy sr ss obj w)) = Some e \<Longrightarrow>
     0 < length (fst (run_each_strategy sr ss obj w))
   \<and> outcome_at sr obj w ss (length (fst (run_each_strategy sr ss obj w)) - 1) = Some e"
proof (induction ss arbitrary: w)
  case Nil
  then show ?case by simp
next
  case (Cons s ss)
  show ?case
  proof (cases "fst (sr s obj w) = None")
    case False
    with Cons.prems show ?thesis by (simp add: run_each_strategy_step)
  next
    case True
    with Cons.prems have "fst (snd (run_each_strategy sr ss obj (snd (sr s obj w)))) = Some e"
      by (simp add: run_each_strategy_step)
    from Cons.IH [OF this] True show ?thesis
      by (cases "length (fst (run_each_strategy sr ss obj (snd (sr s obj w))))")
         (simp_all add: run_each_strategy_step)
  qed
qed

lemma run_each_strategy_earlier_ok:
  "Suc j < length (fst (run_each_strategy sr ss obj w)) \<Longrightarrow> outcome_at sr obj w ss j = None"
proof (induction ss arbitrary: w j)
  case Nil
  then show ?case by simp
next
  case (Cons s ss)
  show ?case
  proof (cases "fst (sr s obj w) = None")
    case False
    with Cons.prems show ?thesis by (simp add: run_each_strategy_step)
  next
    case True
    show ?thesis
    proof (cases j)
      case 0
      with True show ?thesis by simp
    next
      case (Suc i)
      with Cons.prems True
      have "Suc i < length (fst (run_each_strategy sr ss obj (snd (sr s obj w))))"
        by (simp add: run_each_strategy_step)
      from Cons.IH [OF this] Suc show ?thesis by simp
    qed
  qed
qed

lemma run_each_strategy_none_all_ok:
  "fst (snd (run_each_strategy sr ss obj w)) = None \<Longrightarrow> j < length ss \<Longrightarrow>
     outcome_at sr obj w ss j = None"
proof (induction ss arbitrary: w j)
  case Nil
  then show ?case by simp
next
  case (Cons s ss)
  show ?case
  proof (cases "fst (sr s obj w) = None")
    case False
    with Cons.prems(1) show ?thesis by (simp add: run_each_strategy_step)
  next
    case True
    with Cons.prems(1)
    have rest: "fst (snd (run_each_strategy sr ss obj (snd (sr s obj w)))) = None"
      by (simp add: run_each_strategy_step)
    show ?thesis
    proof (cases j)
      case 0
      with True show ?thesis by simp
    next
      case (Suc i)
      with Cons.prems(2) have "i < length ss" by simp
      from Cons.IH [OF rest this] Suc show ?thesis by simp
    qed
  qed
qed

lemma run_each_strategy_first_raise:
  "j < length ss \<Longrightarrow> \<forall>i < j. outcome_at sr obj w ss i = None \<Longrightarrow>
   outcome_at sr obj w ss j = Some e \<Longrightarrow>
     run_each_strategy sr ss obj w
       = (map (\<lambda>s. (s, obj)) (take (Suc j) ss), Some e, world_before sr obj w ss (Suc j))"
proof (induction ss arbitrary: w j)
  case Nil
  then show ?case by simp
next
  case (Cons s ss)
  show ?case
  proof (cases j)
    case 0
    with Cons.prems(3) show ?thesis by (simp add: run_each_strategy_step)
  next
    case (Suc i)
    with Cons.prems(2) have first: "fst (sr s obj w) = None"
      by (metis outcome_at_simps(1) zero_less_Suc)
    from Suc Cons.prems(1) have i: "i < length ss" by simp
    have before: "\<forall>k < i. outcome_at sr obj (snd (sr s obj w)) ss k = None"
    proof (intro allI impI)
      fix k assume "k < i"
      then have "Suc k < j" using Suc by simp
      with Cons.prems(2) have "outcome_at sr obj w (s # ss) (Suc k) = None" by blast
      then show "outcome_at sr obj (snd (sr s obj w)) ss k = None" by simp
    qed
    from Cons.prems(3) Suc have "outcome_at sr obj (snd (sr s obj w)) ss i = Some e"
      by simp
    from Cons.IH [OF i before this] first Suc show ?thesis
      by (simp add: run_each_strategy_step)
  qed
qed

lemma run_each_strategy_no_raise:
  "\<forall>j < length ss. outcome_at sr obj w ss j = None \<Longrightarrow>
     run_each_strategy sr ss obj w
       = (map (\<lambda>s. (s, obj)) ss, None, world_before sr obj w ss (length ss))"
proof (induction ss arbitrary: w)
  case Nil
  then show ?case by simp
next
  case (Cons s ss)
  from Cons.prems have first: "fst (sr s obj w) = None"
    by (metis outcome_at_simps(1) length_greater_0_conv list.distinct(1))
  have "\<forall>j < length ss. outcome_at sr obj (snd (sr s obj w)) ss j = None"
  proof (intro allI impI)
    fix j assume "j < length ss"
    then have "Suc j < length (s # ss)" by simp
    with Cons.prems have "outcome_at sr obj w (s # ss) (Suc j) = None" by blast
    then show "outcome_at sr obj (snd (sr s obj w)) ss j = None" by simp
  qed
  from Cons.IH [OF this] first show ?case
    by (simp add: run_each_strategy_step)
qed

lemma run_each_strategy_all_succeed:
  "\<forall>s \<in> set ss. \<forall>w. fst (sr s obj w) = None \<Longrightarrow>
     fst (snd (run_each_strategy sr ss obj w)) = None"
  by (induction ss arbitrary: w) (simp_all add: run_each_strategy_step)

lemma example_run_all_ok:
  "fst (snd (run_all_inspection_steps (instantiate_and_run (example_environment True))
               example_object example_world)) = None"
  by code_simp

lemma example_run_all_fails:
  "fst (snd (run_all_inspection_steps (instantiate_and_run (example_environment False))
               example_object example_world)) = Some ExternalError"
  by code_simp

lemma example_run_all_fails_calls:
  "length (fst (run_all_inspection_steps (instantiate_and_run (example_environment False))
                  example_object example_world)) = 1"
  by code_simp

text \<open>
  C10 (amended). If the database has no attribute \<open>inspection_strategies\<close>,
  \<open>run_all_inspection_steps\<close> returns without an error, calls no strategy and leaves the
  world as it was. When the attribute is there, the strategies are instantiated and run
  in the order of the sequence, each with the same inspection object and on the world
  its predecessors left, up to and including the first one that raises: every call
  before the last one made raised nothing, the exception of the first strategy that
  raises is the outcome, and the strategies after it are not run. When no strategy
  raises, every strategy of the sequence is run and the outcome is no error.
\<close>

theorem run_all_inspection_steps_until_first_error:
  fixes sr :: "'s \<Rightarrow> 's inspection_object \<Rightarrow> 'w \<Rightarrow> error option \<times> 'w"
  shows "(inspection_strategies (database obj) = None
            \<longrightarrow> run_all_inspection_steps sr obj w = ([], None, w))
       \<and> (\<forall>ss calls outcome w'.
             inspection_strategies (database obj) = Some ss
           \<and> run_all_inspection_steps sr obj w = (calls, outcome, w')
           \<longrightarrow> length calls \<le> length ss
             \<and> calls = map (\<lambda>s. (s, obj)) (take (length calls) ss)
             \<and> w' = world_before sr obj w ss (length calls)
             \<and> (\<forall>j. Suc j < length calls \<longrightarrow> outcome_at sr obj w ss j = None)
             \<and> (outcome = None \<longrightarrow>
                   calls = map (\<lambda>s. (s, obj)) ss
                 \<and> (\<forall>j < length ss. outcome_at sr obj w ss j = None))
             \<and> (\<forall>e. outcome = Some e \<longrightarrow>
                   0 < length calls \<and> outcome_at sr obj w ss (length calls - 1) = Some e)
             \<and> (\<forall>j e. j < length ss \<and> (\<forall>i < j. outcome_at sr obj w ss i = None)
                      \<and> outcome_at sr obj w ss j = Some e
                   \<longrightarrow> calls = map (\<lambda>s. (s, obj)) (take (Suc j) ss)
                     \<and> outcome = Some e
                     \<and> w' = world_before sr obj w ss (Suc j))
             \<and> ((\<forall>j < length ss. outcome_at sr obj w ss j = None)
                   \<longrightarrow> calls = map (\<lambda>s. (s, obj)) ss \<and> outcome = None
                     \<and> w' = world_before sr obj w ss (length ss))
             \<and> ((\<forall>s \<in> set ss. \<forall>w. fst (sr s obj w) = None) \<longrightarrow> outcome = None))"
proof (intro conjI impI allI; (elim conjE)?)
  assume "inspection_strategies (database obj) = None"
  then show "run_all_inspection_steps sr obj w = ([], None, w)"
    by (simp add: run_all_inspection_steps_def)
next
  fix ss calls outcome w'
  assume ss: "inspection_strategies (database obj) = Some ss"
    and r: "run_all_inspection_steps sr obj w = (calls, outcome, w')"
  from ss r have eq: "run_each_strategy sr ss obj w = (calls, outcome, w')"
    by (simp add: run_all_inspection_steps_def)
  from run_each_strategy_length [of sr ss obj w]
  show "length calls \<le> length ss" by (simp add: eq)
  from run_each_strategy_calls [of sr ss obj w]
  show c: "calls = map (\<lambda>s. (s, obj)) (take (length calls) ss)" by (simp add: eq)
  from run_each_strategy_world [of sr ss obj w]
  show "w' = world_before sr obj w ss (length calls)" by (simp add: eq)
  show "outcome_at sr obj w ss j = None" if "Suc j < length calls" for j
    using run_each_strategy_earlier_ok [of j sr ss obj w] that by (simp add: eq)
  show "calls = map (\<lambda>s. (s, obj)) ss" if "outcome = None"
    using run_each_strategy_completes [of sr ss obj w] that c by (simp add: eq)
  show "outcome_at sr obj w ss j = None" if "outcome = None" "j < length ss" for j
    using run_each_strategy_none_all_ok [of sr ss obj w j] that by (simp add: eq)
  show "0 < length calls" if "outcome = Some e" for e
    using run_each_strategy_stops [of sr ss obj w e] that by (simp add: eq)
  show "outcome_at sr obj w ss (length calls - 1) = Some e" if "outcome = Some e" for e
    using run_each_strategy_stops [of sr ss obj w e] that by (simp add: eq)
  show "calls = map (\<lambda>s. (s, obj)) (take (Suc j) ss)" and "outcome = Some e"
    and "w' = world_before sr obj w ss (Suc j)"
    if "j < length ss" "\<forall>i < j. outcome_at sr obj w ss i = None"
      "outcome_at sr obj w ss j = Some e" for j e
    using run_each_strategy_first_raise [OF that] by (simp_all add: eq)
  show "calls = map (\<lambda>s. (s, obj)) ss" and "outcome = None"
    and "w' = world_before sr obj w ss (length ss)"
    if "\<forall>j < length ss. outcome_at sr obj w ss j = None"
    using run_each_strategy_no_raise [OF that] by (simp_all add: eq)
  show "outcome = None" if "\<forall>s \<in> set ss. \<forall>w. fst (sr s obj w) = None"
    using run_each_strategy_all_succeed [of ss sr obj w] that by (simp add: eq)
qed

theorem run_all_inspection_steps_until_first_error_witness:
  "fst (run_all_inspection_steps (instantiate_and_run (example_environment True))
          example_object example_world)
     = [(InspectReconstructedCells2D, example_object), (InspectReconstructedCells2D, example_object)]
   \<and> fst (snd (run_all_inspection_steps (instantiate_and_run (example_environment True))
                  example_object example_world)) = None
   \<and> run_all_inspection_steps (instantiate_and_run (example_environment True))
        (example_object\<lparr>database := example_database\<lparr>inspection_strategies := None\<rparr>\<rparr>)
        example_world = ([], None, example_world)
   \<and> fst (snd (run_all_inspection_steps (\<lambda>s obj w. (None, s # w))
                  (example_object\<lparr>database := example_database\<lparr>inspection_strategies :=
                      Some [InspectReconstructedCells2D]\<rparr>\<rparr>) [])) = None
   \<and> fst (run_all_inspection_steps (instantiate_and_run (example_environment False))
            example_object example_world) = [(InspectReconstructedCells2D, example_object)]"
proof -
  let ?sr = "instantiate_and_run (example_environment True) ::
               strategy \<Rightarrow> strategy inspection_object \<Rightarrow> nat event world \<Rightarrow> _"
  let ?R = "run_all_inspection_steps ?sr example_object example_world"
  have pair: "inspection_strategies (database example_object)
                = Some [InspectReconstructedCells2D, InspectReconstructedCells2D]
            \<and> ?R = (fst ?R, fst (snd ?R), snd (snd ?R))"
    by (simp add: example_object_fields)
  from run_all_inspection_steps_until_first_error [of example_object ?sr example_world,
      THEN conjunct2, THEN spec, THEN spec, THEN spec, THEN spec, THEN mp, OF pair]
    example_run_all_ok
  have a: "fst ?R = map (\<lambda>s. (s, example_object))
                   [InspectReconstructedCells2D, InspectReconstructedCells2D]"
    by blast
  let ?none = "example_object\<lparr>database := example_database\<lparr>inspection_strategies := None\<rparr>\<rparr>"
  have "inspection_strategies (database ?none) = None" by simp
  with run_all_inspection_steps_until_first_error [of ?none ?sr example_world, THEN conjunct1]
  have b: "run_all_inspection_steps ?sr ?none example_world = ([], None, example_world)"
    by blast
  let ?toy = "\<lambda>(s::strategy) (obj::strategy inspection_object) (w::strategy list).
                (None::error option, s # w)"
  let ?one = "example_object\<lparr>database := example_database\<lparr>inspection_strategies :=
                      Some [InspectReconstructedCells2D]\<rparr>\<rparr>"
  let ?T = "run_all_inspection_steps ?toy ?one []"
  have one: "inspection_strategies (database ?one) = Some [InspectReconstructedCells2D]
           \<and> ?T = (fst ?T, fst (snd ?T), snd (snd ?T))"
    by simp
  have all: "\<forall>s \<in> set [InspectReconstructedCells2D]. \<forall>w. fst (?toy s ?one w) = None"
    by simp
  from run_all_inspection_steps_until_first_error [of ?one ?toy "[]", THEN conjunct2,
      THEN spec, THEN spec, THEN spec, THEN spec, THEN mp, OF one] all
  have c: "fst (snd ?T) = None"
    by blast
  let ?sf = "instantiate_and_run (example_environment False) ::
               strategy \<Rightarrow> strategy inspection_object \<Rightarrow> nat event world \<Rightarrow> _"
  let ?F = "run_all_inspection_steps ?sf example_object example_world"
  have pairF: "inspection_strategies (database example_object)
                = Some [InspectReconstructedCells2D, InspectReconstructedCells2D]
            \<and> ?F = (fst ?F, fst (snd ?F), snd (snd ?F))"
    by (simp add: example_object_fields)
  have raise: "(0::nat) < length [InspectReconstructedCells2D, InspectReconstructedCells2D]
      \<and> (\<forall>i < (0::nat). outcome_at ?sf example_object example_world
                          [InspectReconstructedCells2D, InspectReconstructedCells2D] i = None)
      \<and> outcome_at ?sf example_object example_world
          [InspectReconstructedCells2D, InspectReconstructedCells2D] 0 = Some ExternalError"
    by (simp add: example_run_fails)
  from run_all_inspection_steps_until_first_error [of example_object ?sf example_world,
      THEN conjunct2, THEN spec, THEN spec, THEN spec, THEN spec, THEN mp, OF pairF]
  have "\<forall>j e. j < length [InspectReconstructedCells2D, InspectReconstructedCells2D]
          \<and> (\<forall>i < j. outcome_at ?sf example_object example_world
                          [InspectReconstructedCells2D, InspectReconstructedCells2D] i = None)
          \<and> outcome_at ?sf example_object example_world
              [InspectReconstructedCells2D, InspectReconstructedCells2D] j = Some e
          \<longrightarrow> fst ?F = map (\<lambda>s. (s, example_object))
                          (take (Suc j) [InspectReconstructedCells2D, InspectReconstructedCells2D])"
    by blast
  from this [THEN spec, THEN spec, THEN mp, OF raise]
  have d: "fst ?F = [(InspectReconstructedCells2D, example_object)]"
    by simp
  from a b c d example_run_all_ok show ?thesis by simp
qed

text \<open>
  The claim as first stated fails when a strategy raises: with the files of the small
  inspection missing, the first of two strategies raises and the second is never run.
\<close>

theorem run_all_inspection_steps_stops_at_raising_strategy:
  "inspection_strategies (database example_object)
     = Some [InspectReconstructedCells2D, InspectReconstructedCells2D]
   \<and> fst (snd (run_all_inspection_steps (instantiate_and_run (example_environment False))
                  example_object example_world)) = Some ExternalError
   \<and> length (fst (run_all_inspection_steps (instantiate_and_run (example_environment False))
                     example_object example_world)) = 1
   \<and> fst (run_all_inspection_steps (instantiate_and_run (example_environment False))
            example_object example_world)
       \<noteq> map (\<lambda>s. (s, example_object)) [InspectReconstructedCells2D, InspectReconstructedCells2D]"
proof -
  have "fst (run_all_inspection_steps (instantiate_and_run (example_environment False))
            example_object example_world)
       \<noteq> map (\<lambda>s. (s, example_object)) [InspectReconstructedCells2D, InspectReconstructedCells2D]"
  proof
    assume "fst (run_all_inspection_steps (instantiate_and_run (example_environment False))
            example_object example_world)
       = map (\<lambda>s. (s, example_object)) [InspectReconstructedCells2D, InspectReconstructedCells2D]"
    then have "length (fst (run_all_inspection_steps (instantiate_and_run (example_environment False))
                 example_object example_world)) = 2"
      by simp
    with example_run_all_fails_calls show False by simp
  qed
  with example_run_all_fails example_run_all_fails_calls example_object_fields(4)
  show ?thesis by simp
qed

end

